theory Spec2Isabelle
  imports Complex_Main "HOL-Library.Multiset"
begin

section \<open>Numbers, vectors and the rendering library's transforms\<close>

text \<open>
  A JavaScript number is a finite value, NaN, or one of the two infinities.
  Arithmetic on finite values is exact here: rounding, overflow and the sign of
  zero are not modelled.  The position, rotation and pivot of a scene object are
  finite reals; its scale components and all computed coordinates are numbers.
\<close>

type_synonym vec3 = "real \<times> real \<times> real"

datatype number = Fin real | NaN | PosInf | NegInf

fun isFinite :: "number \<Rightarrow> bool" where
  "isFinite (Fin r) = True"
| "isFinite x = False"

type_synonym vertex = "number \<times> number \<times> number"

fun nneg :: "number \<Rightarrow> number" where
  "nneg (Fin r) = Fin (- r)"
| "nneg NaN = NaN"
| "nneg PosInf = NegInf"
| "nneg NegInf = PosInf"

fun nabs :: "number \<Rightarrow> number" where
  "nabs (Fin r) = Fin \<bar>r\<bar>"
| "nabs NaN = NaN"
| "nabs PosInf = PosInf"
| "nabs NegInf = PosInf"

fun nadd :: "number \<Rightarrow> number \<Rightarrow> number" where
  "nadd (Fin a) (Fin b) = Fin (a + b)"
| "nadd NaN y = NaN"
| "nadd x NaN = NaN"
| "nadd PosInf NegInf = NaN"
| "nadd NegInf PosInf = NaN"
| "nadd PosInf y = PosInf"
| "nadd x PosInf = PosInf"
| "nadd NegInf y = NegInf"
| "nadd x NegInf = NegInf"

definition nsub :: "number \<Rightarrow> number \<Rightarrow> number" where
  "nsub x y = nadd x (nneg y)"

fun nmul :: "number \<Rightarrow> number \<Rightarrow> number" where
  "nmul (Fin a) (Fin b) = Fin (a * b)"
| "nmul NaN y = NaN"
| "nmul x NaN = NaN"
| "nmul (Fin a) PosInf = (if a = 0 then NaN else if 0 < a then PosInf else NegInf)"
| "nmul (Fin a) NegInf = (if a = 0 then NaN else if 0 < a then NegInf else PosInf)"
| "nmul PosInf (Fin b) = (if b = 0 then NaN else if 0 < b then PosInf else NegInf)"
| "nmul NegInf (Fin b) = (if b = 0 then NaN else if 0 < b then NegInf else PosInf)"
| "nmul PosInf PosInf = PosInf"
| "nmul PosInf NegInf = NegInf"
| "nmul NegInf PosInf = NegInf"
| "nmul NegInf NegInf = PosInf"

text \<open>\<open>1 / x\<close>.\<close>

fun nrecip :: "number \<Rightarrow> number" where
  "nrecip (Fin r) = (if r = 0 then PosInf else Fin (1 / r))"
| "nrecip NaN = NaN"
| "nrecip PosInf = Fin 0"
| "nrecip NegInf = Fin 0"

text \<open>The comparisons \<open>x < y\<close> and \<open>x >= y\<close>; both are false when an operand is NaN.\<close>

fun nlt :: "number \<Rightarrow> number \<Rightarrow> bool" where
  "nlt (Fin a) (Fin b) = (a < b)"
| "nlt NaN y = False"
| "nlt x NaN = False"
| "nlt PosInf y = False"
| "nlt x NegInf = False"
| "nlt x PosInf = True"
| "nlt NegInf y = True"

fun nge :: "number \<Rightarrow> number \<Rightarrow> bool" where
  "nge (Fin a) (Fin b) = (a \<ge> b)"
| "nge NaN y = False"
| "nge x NaN = False"
| "nge PosInf y = True"
| "nge x NegInf = True"
| "nge x PosInf = False"
| "nge NegInf y = False"

text \<open>\<^verbatim>\<open>Math.min\<close> and \<^verbatim>\<open>Math.max\<close>: NaN when an operand is NaN.\<close>

fun nmin :: "number \<Rightarrow> number \<Rightarrow> number" where
  "nmin (Fin a) (Fin b) = Fin (min a b)"
| "nmin NaN y = NaN"
| "nmin x NaN = NaN"
| "nmin NegInf y = NegInf"
| "nmin x NegInf = NegInf"
| "nmin PosInf y = y"
| "nmin x PosInf = x"

fun nmax :: "number \<Rightarrow> number \<Rightarrow> number" where
  "nmax (Fin a) (Fin b) = Fin (max a b)"
| "nmax NaN y = NaN"
| "nmax x NaN = NaN"
| "nmax PosInf y = PosInf"
| "nmax x PosInf = PosInf"
| "nmax NegInf y = y"
| "nmax x NegInf = x"

definition vadd :: "vec3 \<Rightarrow> vec3 \<Rightarrow> vec3" where
  "vadd a b = (case a of (ax, ay, az) \<Rightarrow> case b of (bx, by, bz) \<Rightarrow> (ax + bx, ay + by, az + bz))"

definition vsub :: "vec3 \<Rightarrow> vec3 \<Rightarrow> vec3" where
  "vsub a b = (case a of (ax, ay, az) \<Rightarrow> case b of (bx, by, bz) \<Rightarrow> (ax - bx, ay - by, az - bz))"

definition fromVec3 :: "vec3 \<Rightarrow> vertex" where
  "fromVec3 v = (case v of (x, y, z) \<Rightarrow> (Fin x, Fin y, Fin z))"

type_synonym quaternion = "real \<times> real \<times> real \<times> real"

text \<open>\<^verbatim>\<open>Quaternion.setFromEuler\<close> of the rendering library, Euler order XYZ.\<close>

definition setFromEuler :: "vec3 \<Rightarrow> quaternion" where
  "setFromEuler e = (case e of (x, y, z) \<Rightarrow>
     (let c1 = cos (x / 2); c2 = cos (y / 2); c3 = cos (z / 2);
          s1 = sin (x / 2); s2 = sin (y / 2); s3 = sin (z / 2)
      in (s1 * c2 * c3 + c1 * s2 * s3,
          c1 * s2 * c3 - s1 * c2 * s3,
          c1 * c2 * s3 + s1 * s2 * c3,
          c1 * c2 * c3 - s1 * s2 * s3)))"

text \<open>\<^verbatim>\<open>Matrix4.compose\<close>: the sixteen elements, column-major.\<close>

definition compose :: "vec3 \<Rightarrow> quaternion \<Rightarrow> vertex \<Rightarrow> number list" where
  "compose p q s = (case p of (px, py, pz) \<Rightarrow> case q of (x, y, z, w) \<Rightarrow> case s of (sx, sy, sz) \<Rightarrow>
     (let x2 = x + x; y2 = y + y; z2 = z + z;
          xx = x * x2; xy = x * y2; xz = x * z2;
          yy = y * y2; yz = y * z2; zz = z * z2;
          wx = w * x2; wy = w * y2; wz = w * z2
      in [nmul (Fin (1 - (yy + zz))) sx, nmul (Fin (xy + wz)) sx, nmul (Fin (xz - wy)) sx, Fin 0,
          nmul (Fin (xy - wz)) sy, nmul (Fin (1 - (xx + zz))) sy, nmul (Fin (yz + wx)) sy, Fin 0,
          nmul (Fin (xz + wy)) sz, nmul (Fin (yz - wx)) sz, nmul (Fin (1 - (xx + yy))) sz, Fin 0,
          Fin px, Fin py, Fin pz, Fin 1]))"

text \<open>\<^verbatim>\<open>Matrix4.makeTranslation\<close>.\<close>

definition makeTranslation :: "vertex \<Rightarrow> number list" where
  "makeTranslation d = (case d of (x, y, z) \<Rightarrow>
     [Fin 1, Fin 0, Fin 0, Fin 0,
      Fin 0, Fin 1, Fin 0, Fin 0,
      Fin 0, Fin 0, Fin 1, Fin 0,
      x, y, z, Fin 1])"

text \<open>\<open>a * x + b * y + c * z + d\<close>, evaluated from the left.\<close>

definition row :: "number \<Rightarrow> number \<Rightarrow> number \<Rightarrow> number \<Rightarrow> number \<Rightarrow> number \<Rightarrow> number \<Rightarrow> number" where
  "row a x b y c z d = nadd (nadd (nadd (nmul a x) (nmul b y)) (nmul c z)) d"

text \<open>\<^verbatim>\<open>Vector3.applyMatrix4\<close>, with its perspective divide.\<close>

definition applyMatrix4 :: "number list \<Rightarrow> vertex \<Rightarrow> vertex" where
  "applyMatrix4 e v = (case v of (x, y, z) \<Rightarrow>
     (let w = nrecip (row (e ! 3) x (e ! 7) y (e ! 11) z (e ! 15))
      in (nmul (row (e ! 0) x (e ! 4) y (e ! 8) z (e ! 12)) w,
          nmul (row (e ! 1) x (e ! 5) y (e ! 9) z (e ! 13)) w,
          nmul (row (e ! 2) x (e ! 6) y (e ! 10) z (e ! 14)) w)))"

section \<open>Scene objects (types.ts)\<close>

datatype ShapeType = Box | Sphere | Cylinder | Cone | Torus | Group | Custom

text \<open>
  A buffer geometry is its position attribute, which may be missing.  The buffer
  is kept as a list of vertices, three numbers each, so the flat array has three
  times as many entries as the list has vertices.
\<close>

record geometry =
  positionAttr :: "vertex list option"

text \<open>
  \<open>geometryData\<close> is the serialized geometry.  The library's
  \<^verbatim>\<open>BufferGeometryLoader.parse\<close> either returns a geometry or throws; the
  blob is represented by that outcome.
\<close>

datatype geometryData = GeometryJSON geometry | Malformed

fun parse :: "geometryData \<Rightarrow> geometry option" where
  "parse (GeometryJSON g) = Some g"
| "parse Malformed = None"

definition toJSON :: "geometry \<Rightarrow> geometryData" where
  "toJSON g = GeometryJSON g"

datatype SceneObject = SceneObject
  (obj_id: string)
  (obj_type: ShapeType)
  (position: vec3)
  (rotation: vec3)
  (scale: vertex)
  (pivot: "vec3 option")
  (color: string)
  (name: string)
  (children: "SceneObject list option")
  (geometryData: "geometryData option")
  (baseDimensions: "vec3 option")

section \<open>The boolean engine (utils/booleanOperations.ts)\<close>

record mesh =
  mesh_geometry :: geometry
  mesh_position :: vec3
  mesh_quaternion :: quaternion
  mesh_scale :: vertex

definition matrixWorld :: "mesh \<Rightarrow> number list" where
  "matrixWorld m = compose (mesh_position m) (mesh_quaternion m) (mesh_scale m)"

definition worldVertex :: "mesh \<Rightarrow> vertex \<Rightarrow> vertex" where
  "worldVertex m v = applyMatrix4 (matrixWorld m) v"

datatype operation = UnionOp | SubtractOp | IntersectOp

datatype csgOutcome = Throws string | NoResultMesh | ResultMesh mesh

text \<open>
  What the code takes from outside: the identifiers \<^verbatim>\<open>generateId\<close> issues, call
  by call; the library's tessellations of the sphere, cylinder, cone and torus;
  the mesh combinator; and, for ungroup, the library's composition of the group
  matrix with a child matrix decomposed again into position, Euler rotation and
  scale.
\<close>

record env =
  generateId :: "nat \<Rightarrow> string"
  primitiveGeometry :: "ShapeType \<Rightarrow> geometry"
  csg :: "operation \<Rightarrow> mesh \<Rightarrow> mesh \<Rightarrow> csgOutcome"
  reparent :: "vec3 \<times> vec3 \<times> vertex \<Rightarrow> vec3 \<times> vec3 \<times> vertex \<Rightarrow> vec3 \<times> vec3 \<times> vertex"

definition validateGeometry :: "geometry \<Rightarrow> bool" where
  "validateGeometry g =
     (case positionAttr g of
        None \<Rightarrow> False
      | Some positions \<Rightarrow>
          if 3 * length positions < 9 then False
          else list_all (\<lambda>v. case v of (x, y, z) \<Rightarrow> isFinite x \<and> isFinite y \<and> isFinite z) positions)"

text \<open>\<^verbatim>\<open>new THREE.BoxGeometry(1, 1, 1)\<close>: four vertices for each of the six faces.\<close>

definition boxVertices :: "vec3 list" where
  "boxVertices =
     [(1/2, 1/2, 1/2), (1/2, 1/2, -1/2), (1/2, -1/2, 1/2), (1/2, -1/2, -1/2),
      (-1/2, 1/2, -1/2), (-1/2, 1/2, 1/2), (-1/2, -1/2, -1/2), (-1/2, -1/2, 1/2),
      (-1/2, 1/2, -1/2), (1/2, 1/2, -1/2), (-1/2, 1/2, 1/2), (1/2, 1/2, 1/2),
      (-1/2, -1/2, 1/2), (1/2, -1/2, 1/2), (-1/2, -1/2, -1/2), (1/2, -1/2, -1/2),
      (-1/2, 1/2, 1/2), (1/2, 1/2, 1/2), (-1/2, -1/2, 1/2), (1/2, -1/2, 1/2),
      (1/2, 1/2, -1/2), (-1/2, 1/2, -1/2), (1/2, -1/2, -1/2), (-1/2, -1/2, -1/2)]"

definition BoxGeometry :: geometry where
  "BoxGeometry = \<lparr> positionAttr = Some (map fromVec3 boxVertices) \<rparr>"

text \<open>
  \<^verbatim>\<open>Math.abs(s) < 0.001 ? (s >= 0 ? 0.001 : -0.001) : s\<close>.  For NaN and the
  infinities the comparison is false and the component is kept.
\<close>

definition scaleComponent :: "number \<Rightarrow> number" where
  "scaleComponent s =
     (if nlt (nabs s) (Fin (1/1000)) then (if nge s (Fin 0) then Fin (1/1000) else Fin (- (1/1000)))
      else s)"

definition createMeshFromObject :: "env \<Rightarrow> SceneObject \<Rightarrow> mesh option" where
  "createMeshFromObject env obj =
     (let geometry =
        (case obj_type obj of
           Box \<Rightarrow> BoxGeometry
         | Sphere \<Rightarrow> primitiveGeometry env Sphere
         | Cylinder \<Rightarrow> primitiveGeometry env Cylinder
         | Cone \<Rightarrow> primitiveGeometry env Cone
         | Torus \<Rightarrow> primitiveGeometry env Torus
         | Custom \<Rightarrow>
             (case geometryData obj of
                Some d \<Rightarrow> (case parse d of Some g \<Rightarrow> g | None \<Rightarrow> BoxGeometry)
              | None \<Rightarrow> BoxGeometry)
         | Group \<Rightarrow> BoxGeometry)
      in if \<not> validateGeometry geometry then None
         else Some \<lparr> mesh_geometry = geometry,
                     mesh_position = (case pivot obj of
                                        Some pv \<Rightarrow> vadd (position obj) pv
                                      | None \<Rightarrow> position obj),
                     mesh_quaternion = setFromEuler (rotation obj),
                     mesh_scale = (case scale obj of (sx, sy, sz) \<Rightarrow>
                                     (scaleComponent sx, scaleComponent sy, scaleComponent sz)) \<rparr>)"

section \<open>The renderer's placement of a leaf node (SceneNode)\<close>

text \<open>
  The wrapper group carries the object's position, rotation and scale; the mesh
  inside it is positioned at the pivot (\<open>obj.pivot || [0, 0, 0]\<close>).
\<close>

definition renderVertex :: "SceneObject \<Rightarrow> vertex \<Rightarrow> vertex" where
  "renderVertex obj v =
     applyMatrix4 (compose (position obj) (setFromEuler (rotation obj)) (scale obj))
       (applyMatrix4 (compose (case pivot obj of Some pv \<Rightarrow> pv | None \<Rightarrow> (0, 0, 0))
                        (setFromEuler (0, 0, 0)) (Fin 1, Fin 1, Fin 1)) v)"

section \<open>Bounding boxes and the combine pipeline\<close>

text \<open>
  \<^verbatim>\<open>Box3\<close> of the library: \<open>None\<close> is the empty box, otherwise the minimum and
  maximum corners.
\<close>

type_synonym box3 = "(vertex \<times> vertex) option"

fun expandByPoint :: "box3 \<Rightarrow> vertex \<Rightarrow> box3" where
  "expandByPoint None p = Some (p, p)"
| "expandByPoint (Some ((ax, ay, az), (bx, by, bz))) (x, y, z) =
     Some ((nmin ax x, nmin ay y, nmin az z), (nmax bx x, nmax by y, nmax bz z))"

definition setFromPoints :: "vertex list \<Rightarrow> box3" where
  "setFromPoints ps = foldl expandByPoint None ps"

definition computeBoundingBox :: "geometry \<Rightarrow> box3" where
  "computeBoundingBox g = (case positionAttr g of None \<Rightarrow> None | Some ps \<Rightarrow> setFromPoints ps)"

fun boxApplyMatrix4 :: "number list \<Rightarrow> box3 \<Rightarrow> box3" where
  "boxApplyMatrix4 e None = None"
| "boxApplyMatrix4 e (Some ((ax, ay, az), (bx, by, bz))) =
     setFromPoints (map (applyMatrix4 e)
       [(ax, ay, az), (ax, ay, bz), (ax, by, az), (ax, by, bz),
        (bx, ay, az), (bx, ay, bz), (bx, by, az), (bx, by, bz)])"

definition setFromObject :: "mesh \<Rightarrow> box3" where
  "setFromObject m = boxApplyMatrix4 (matrixWorld m) (computeBoundingBox (mesh_geometry m))"

fun getCenter :: "box3 \<Rightarrow> vertex" where
  "getCenter None = (Fin 0, Fin 0, Fin 0)"
| "getCenter (Some ((ax, ay, az), (bx, by, bz))) =
     (nmul (nadd ax bx) (Fin (1/2)), nmul (nadd ay by) (Fin (1/2)), nmul (nadd az bz) (Fin (1/2)))"

fun getSize :: "box3 \<Rightarrow> vertex" where
  "getSize None = (Fin 0, Fin 0, Fin 0)"
| "getSize (Some ((ax, ay, az), (bx, by, bz))) = (nsub bx ax, nsub by ay, nsub bz az)"

record BooleanOperationResult =
  res_geometry :: geometry
  res_position :: vertex
  res_size :: vertex
  isValid :: bool
  res_error :: "string option"

definition emptyGeometry :: geometry where
  "emptyGeometry = \<lparr> positionAttr = None \<rparr>"

definition invalidResult :: "string \<Rightarrow> BooleanOperationResult" where
  "invalidResult msg = \<lparr> res_geometry = emptyGeometry, res_position = (Fin 0, Fin 0, Fin 0),
     res_size = (Fin 0, Fin 0, Fin 0), isValid = False, res_error = Some msg \<rparr>"

definition performOperation ::
  "env \<Rightarrow> mesh option \<Rightarrow> mesh option \<Rightarrow> operation \<Rightarrow> BooleanOperationResult" where
  "performOperation env meshA meshB op =
     (case (meshA, meshB) of
        (Some a, Some b) \<Rightarrow>
          if \<not> validateGeometry (mesh_geometry a) \<or> \<not> validateGeometry (mesh_geometry b)
          then invalidResult ''Mesh geometry is invalid''
          else (case csg env op a b of
                  Throws msg \<Rightarrow> invalidResult (''CSG operation failed: '' @ msg)
                | NoResultMesh \<Rightarrow> invalidResult ''CSG operation failed - no result mesh''
                | ResultMesh resultMesh \<Rightarrow>
                    if \<not> validateGeometry (mesh_geometry resultMesh)
                    then invalidResult ''Result geometry is invalid''
                    else (let boundingBox = setFromObject resultMesh
                          in \<lparr> res_geometry = mesh_geometry resultMesh,
                               res_position = getCenter boundingBox,
                               res_size = getSize boundingBox,
                               isValid = True,
                               res_error = None \<rparr>))
      | _ \<Rightarrow> invalidResult ''One or both meshes are invalid'')"

text \<open>
  \<^verbatim>\<open>BufferGeometry.translate\<close>: the translation matrix is applied to every vertex
  of the position buffer.
\<close>

definition translate :: "geometry \<Rightarrow> vertex \<Rightarrow> geometry" where
  "translate g d =
     \<lparr> positionAttr = map_option (map (applyMatrix4 (makeTranslation d))) (positionAttr g) \<rparr>"

definition midpoint3 :: "vec3 \<Rightarrow> vec3 \<Rightarrow> vec3" where
  "midpoint3 a b = (case a of (ax, ay, az) \<Rightarrow> case b of (bx, by, bz) \<Rightarrow>
     ((ax + bx) / 2, (ay + by) / 2, (az + bz) / 2))"

text \<open>\<^verbatim>\<open>Math.abs(x) || 1\<close>: 0 and NaN are falsy.\<close>

definition absOrOne :: "number \<Rightarrow> number" where
  "absOrOne x = (if nabs x = Fin 0 \<or> nabs x = NaN then Fin 1 else nabs x)"

fun resultName :: "operation \<Rightarrow> string" where
  "resultName UnionOp = ''Union Result''"
| "resultName SubtractOp = ''Subtract Result''"
| "resultName IntersectOp = ''Intersect Result''"

text \<open>The counter \<open>n\<close> is the number of identifiers issued so far.\<close>

definition createResultObject ::
  "env \<Rightarrow> nat \<Rightarrow> BooleanOperationResult \<Rightarrow> SceneObject \<Rightarrow> SceneObject \<Rightarrow> operation \<Rightarrow> SceneObject \<times> nat" where
  "createResultObject env n operationResult objA objB op =
     (let resultPosition = (case op of
            SubtractOp \<Rightarrow> position objA
          | IntersectOp \<Rightarrow> midpoint3 (position objA) (position objB)
          | UnionOp \<Rightarrow> midpoint3 (position objA) (position objB));
          offset = (case res_position operationResult of (cx, cy, cz) \<Rightarrow>
                      case resultPosition of (px, py, pz) \<Rightarrow>
                        (nsub cx (Fin px), nsub cy (Fin py), nsub cz (Fin pz)));
          adjustedGeometry = translate (res_geometry operationResult)
            (case offset of (ox, oy, oz) \<Rightarrow> (nneg ox, nneg oy, nneg oz))
      in (SceneObject (generateId env n) Custom resultPosition (0, 0, 0)
            (case res_size operationResult of (sx, sy, sz) \<Rightarrow> (absOrOne sx, absOrOne sy, absOrOne sz))
            (Some (0, 0, 0)) (color objA) (resultName op) None
            (Some (toJSON adjustedGeometry)) (Some (1, 1, 1)),
          Suc n))"

definition executeBooleanOperation ::
  "env \<Rightarrow> nat \<Rightarrow> SceneObject \<Rightarrow> SceneObject \<Rightarrow> operation \<Rightarrow> (SceneObject option \<times> string option) \<times> nat" where
  "executeBooleanOperation env n objA objB op =
     (let meshA = createMeshFromObject env objA;
          meshB = createMeshFromObject env objB
      in if meshA = None \<or> meshB = None
         then ((None, Some ''Failed to create meshes from scene objects''), n)
         else (let operationResult = performOperation env meshA meshB op
               in if \<not> isValid operationResult
                  then ((None, res_error operationResult), n)
                  else (case createResultObject env n operationResult objA objB op of
                          (resultObject, n') \<Rightarrow> ((Some resultObject, None), n'))))"

section \<open>Application state and history (App)\<close>

datatype notificationType = Error | Info | Success

record appState =
  objects :: "SceneObject list"
  past :: "SceneObject list list"
  future :: "SceneObject list list"
  selectedIds :: "string list"
  notification :: "(string \<times> notificationType) option"
  nextId :: nat

definition initialState :: "SceneObject list \<Rightarrow> nat \<Rightarrow> appState" where
  "initialState objs n = \<lparr> objects = objs, past = [], future = [], selectedIds = [],
     notification = None, nextId = n \<rparr>"

definition showNotification :: "string \<Rightarrow> notificationType \<Rightarrow> appState \<Rightarrow> appState" where
  "showNotification message ty s = s\<lparr> notification := Some (message, ty) \<rparr>"

definition saveToHistory :: "appState \<Rightarrow> appState" where
  "saveToHistory s = s\<lparr> past := past s @ [objects s], future := [] \<rparr>"

definition undo :: "appState \<Rightarrow> appState" where
  "undo s = (if length (past s) = 0 then s
             else s\<lparr> future := objects s # future s,
                     objects := last (past s),
                     past := take (length (past s) - 1) (past s) \<rparr>)"

definition redo :: "appState \<Rightarrow> appState" where
  "redo s = (if length (future s) = 0 then s
             else s\<lparr> past := past s @ [objects s],
                     objects := hd (future s),
                     future := drop 1 (future s) \<rparr>)"

subsection \<open>Names\<close>

text \<open>Decimal rendering of a count, as string conversion of a number gives it.\<close>

fun decimal :: "nat \<Rightarrow> string" where
  "decimal n = (if n < 10 then [''0123456789'' ! n]
                else decimal (n div 10) @ [''0123456789'' ! (n mod 10)])"

declare decimal.simps [simp del]

fun typeLabel :: "ShapeType \<Rightarrow> string" where
  "typeLabel Box = ''Box''"
| "typeLabel Sphere = ''Sphere''"
| "typeLabel Cylinder = ''Cylinder''"
| "typeLabel Cone = ''Cone''"
| "typeLabel Torus = ''Torus''"
| "typeLabel Group = ''Group''"
| "typeLabel Custom = ''Custom''"

text \<open>
  The classes of the regular expression
  \<^verbatim>\<open>/^(.*?)\s\(Copy(?:\s(\d+))?\)$/\<close>, on code units below 256.
\<close>

definition isWhitespace :: "char \<Rightarrow> bool" where
  "isWhitespace c = (c \<in> set [CHR 0x09, CHR 0x0A, CHR 0x0B, CHR 0x0C, CHR 0x0D, CHR 0x20, CHR 0xA0])"

definition isLineTerminator :: "char \<Rightarrow> bool" where
  "isLineTerminator c = (c \<in> set [CHR 0x0A, CHR 0x0D])"

definition isDigit :: "char \<Rightarrow> bool" where
  "isDigit c = (c \<in> set ''0123456789'')"

text \<open>The part of the expression after the group: \<^verbatim>\<open>\s\(Copy(?:\s(\d+))?\)$\<close>.\<close>

definition copySuffix :: "string \<Rightarrow> bool" where
  "copySuffix s =
     (case s of
        [] \<Rightarrow> False
      | w # rest \<Rightarrow>
          isWhitespace w \<and>
          (rest = ''(Copy)'' \<or>
           (take 5 rest = ''(Copy'' \<and>
            (case drop 5 rest of
               [] \<Rightarrow> False
             | w2 # t \<Rightarrow> isWhitespace w2 \<and> t \<noteq> [] \<and> last t = CHR '')'' \<and>
                         butlast t \<noteq> [] \<and> list_all isDigit (butlast t)))))"

text \<open>
  The lazy group: the shortest prefix without a line terminator after which the
  rest of the expression matches.
\<close>

fun matchRoot :: "string \<Rightarrow> string \<Rightarrow> string option" where
  "matchRoot acc [] = (if copySuffix [] then Some acc else None)"
| "matchRoot acc (c # cs) =
     (if copySuffix (c # cs) then Some acc
      else if isLineTerminator c then None
      else matchRoot (acc @ [c]) cs)"

definition rootName :: "string \<Rightarrow> string" where
  "rootName nm = (case matchRoot [] nm of Some r \<Rightarrow> r | None \<Rightarrow> nm)"

definition copyName :: "string \<Rightarrow> nat \<Rightarrow> string" where
  "copyName base cnt = base @ '' (Copy '' @ decimal cnt @ '')''"

function uniqueNameLoop :: "string list \<Rightarrow> string \<Rightarrow> nat \<Rightarrow> string \<Rightarrow> string" where
  "uniqueNameLoop existingNames base cnt newName =
     (if newName \<in> set existingNames
      then uniqueNameLoop existingNames base (Suc cnt) (copyName base (Suc cnt))
      else newName)"
  by pat_completeness auto

lemma decimal_bound: "n < 10 ^ length (decimal n)"
proof (induction n rule: decimal.induct)
  case (1 n)
  show ?case
  proof (cases "n < 10")
    case True
    then show ?thesis by (subst decimal.simps) simp
  next
    case False
    with 1 have "n div 10 < 10 ^ length (decimal (n div 10))" by simp
    then have "n < 10 * 10 ^ length (decimal (n div 10))" by linarith
    with False show ?thesis by (subst decimal.simps) simp
  qed
qed

lemma member_length_le: "x \<in> set xs \<Longrightarrow> length x \<le> sum_list (map length xs)"
  by (induction xs) auto

lemma copyName_member_bound:
  assumes "copyName base c \<in> set ex"
  shows "c < 10 ^ sum_list (map length ex)"
proof -
  have "length (decimal c) \<le> length (copyName base c)" by (simp add: copyName_def)
  also have "\<dots> \<le> sum_list (map length ex)" using assms by (rule member_length_le)
  finally have "(10::nat) ^ length (decimal c) \<le> 10 ^ sum_list (map length ex)"
    by (simp add: power_increasing)
  with decimal_bound[of c] show ?thesis by linarith
qed

termination uniqueNameLoop
proof (relation "measure (\<lambda>(ex, base, c, nm).
         if nm \<in> set ex then Suc (10 ^ sum_list (map length ex) - c) else 0)")
  show "wf (measure (\<lambda>(ex, base, c, nm).
         if nm \<in> set ex then Suc (10 ^ sum_list (map length ex) - c) else 0))"
    by simp
next
  fix existingNames :: "string list" and base :: string and cnt :: nat and newName :: string
  assume "newName \<in> set existingNames"
  then show "((existingNames, base, Suc cnt, copyName base (Suc cnt)), existingNames, base, cnt, newName)
     \<in> measure (\<lambda>(ex, base, c, nm).
         if nm \<in> set ex then Suc (10 ^ sum_list (map length ex) - c) else 0)"
    using copyName_member_bound[of base "Suc cnt" existingNames] by auto
qed

declare uniqueNameLoop.simps [simp del]

definition uniqueName :: "string list \<Rightarrow> string \<Rightarrow> string" where
  "uniqueName existingNames base = uniqueNameLoop existingNames base 1 (base @ '' (Copy)'')"

subsection \<open>Recursive edits of the forest\<close>

record updates =
  upd_id :: "string option"
  upd_type :: "ShapeType option"
  upd_position :: "vec3 option"
  upd_rotation :: "vec3 option"
  upd_scale :: "vertex option"
  upd_pivot :: "vec3 option"
  upd_color :: "string option"
  upd_name :: "string option"
  upd_children :: "SceneObject list option"
  upd_geometryData :: "geometryData option"
  upd_baseDimensions :: "vec3 option"

definition orElse :: "'a option \<Rightarrow> 'a \<Rightarrow> 'a" where
  "orElse u v = (case u of Some x \<Rightarrow> x | None \<Rightarrow> v)"

definition orElseOpt :: "'a option \<Rightarrow> 'a option \<Rightarrow> 'a option" where
  "orElseOpt u v = (case u of Some x \<Rightarrow> Some x | None \<Rightarrow> v)"

text \<open>The spread \<^verbatim>\<open>{ ...obj, ...updates }\<close>.\<close>

definition applyUpdates :: "SceneObject \<Rightarrow> updates \<Rightarrow> SceneObject" where
  "applyUpdates obj u =
     SceneObject (orElse (upd_id u) (obj_id obj)) (orElse (upd_type u) (obj_type obj))
       (orElse (upd_position u) (position obj)) (orElse (upd_rotation u) (rotation obj))
       (orElse (upd_scale u) (scale obj)) (orElseOpt (upd_pivot u) (pivot obj))
       (orElse (upd_color u) (color obj)) (orElse (upd_name u) (name obj))
       (orElseOpt (upd_children u) (children obj))
       (orElseOpt (upd_geometryData u) (geometryData obj))
       (orElseOpt (upd_baseDimensions u) (baseDimensions obj))"

fun updateObjectRecursive :: "SceneObject list \<Rightarrow> string \<Rightarrow> updates \<Rightarrow> SceneObject list"
  and updateObject :: "SceneObject \<Rightarrow> string \<Rightarrow> updates \<Rightarrow> SceneObject" where
  "updateObjectRecursive [] i u = []"
| "updateObjectRecursive (obj # rest) i u = updateObject obj i u # updateObjectRecursive rest i u"
| "updateObject (SceneObject oi t p r s pv c nm ch gd bd) i u =
     (if oi = i then applyUpdates (SceneObject oi t p r s pv c nm ch gd bd) u
      else (case ch of
              Some cs \<Rightarrow> SceneObject oi t p r s pv c nm (Some (updateObjectRecursive cs i u)) gd bd
            | None \<Rightarrow> SceneObject oi t p r s pv c nm ch gd bd))"

fun deleteObjectRecursive :: "SceneObject list \<Rightarrow> string list \<Rightarrow> SceneObject list"
  and deleteInChildren :: "SceneObject \<Rightarrow> string list \<Rightarrow> SceneObject" where
  "deleteObjectRecursive [] ids = []"
| "deleteObjectRecursive (obj # rest) ids =
     (if obj_id obj \<in> set ids then deleteObjectRecursive rest ids
      else deleteInChildren obj ids # deleteObjectRecursive rest ids)"
| "deleteInChildren (SceneObject oi t p r s pv c nm ch gd bd) ids =
     (case ch of
        Some cs \<Rightarrow> SceneObject oi t p r s pv c nm (Some (deleteObjectRecursive cs ids)) gd bd
      | None \<Rightarrow> SceneObject oi t p r s pv c nm ch gd bd)"

fun findObjectRecursive :: "SceneObject list \<Rightarrow> string \<Rightarrow> SceneObject option"
  and findInObject :: "SceneObject \<Rightarrow> string \<Rightarrow> SceneObject option" where
  "findObjectRecursive [] i = None"
| "findObjectRecursive (obj # rest) i =
     (case findInObject obj i of
        Some found \<Rightarrow> Some found
      | None \<Rightarrow> findObjectRecursive rest i)"
| "findInObject (SceneObject oi t p r s pv c nm ch gd bd) i =
     (if oi = i then Some (SceneObject oi t p r s pv c nm ch gd bd)
      else (case ch of Some cs \<Rightarrow> findObjectRecursive cs i | None \<Rightarrow> None))"

fun getAllNames :: "SceneObject list \<Rightarrow> string list"
  and namesOf :: "SceneObject \<Rightarrow> string list" where
  "getAllNames [] = []"
| "getAllNames (obj # rest) = namesOf obj @ getAllNames rest"
| "namesOf (SceneObject oi t p r s pv c nm ch gd bd) =
     nm # (case ch of Some cs \<Rightarrow> getAllNames cs | None \<Rightarrow> [])"

text \<open>All identifiers of a forest, at every depth.\<close>

fun allIds :: "SceneObject list \<Rightarrow> string list"
  and idsOf :: "SceneObject \<Rightarrow> string list" where
  "allIds [] = []"
| "allIds (obj # rest) = idsOf obj @ allIds rest"
| "idsOf (SceneObject oi t p r s pv c nm ch gd bd) =
     oi # (case ch of Some cs \<Rightarrow> allIds cs | None \<Rightarrow> [])"

text \<open>
  \<open>deepClone\<close> draws one identifier for the node, then clones the children from
  left to right.
\<close>

fun deepClone :: "env \<Rightarrow> string \<Rightarrow> SceneObject \<Rightarrow> bool \<Rightarrow> nat \<Rightarrow> SceneObject \<times> nat"
  and deepCloneChildren :: "env \<Rightarrow> string \<Rightarrow> SceneObject list \<Rightarrow> nat \<Rightarrow> SceneObject list \<times> nat" where
  "deepClone env newName (SceneObject oi t p r s pv c nm ch gd bd) isRoot n =
     (case (case ch of
              Some cs \<Rightarrow> (case deepCloneChildren env newName cs (Suc n) of (cs', k) \<Rightarrow> (Some cs', k))
            | None \<Rightarrow> (None, Suc n)) of
        (ch', n') \<Rightarrow>
          (SceneObject (generateId env n) t
             (if isRoot then (case p of (px, py, pz) \<Rightarrow> (px + 5, py, pz + 5)) else p)
             r s (Some (orElse pv (0, 0, 0))) c (if isRoot then newName else nm) ch' gd bd,
           n'))"
| "deepCloneChildren env newName [] n = ([], n)"
| "deepCloneChildren env newName (child # rest) n =
     (case deepClone env newName child False n of
        (child', n1) \<Rightarrow>
          (case deepCloneChildren env newName rest n1 of
             (rest', n2) \<Rightarrow> (child' # rest', n2)))"

subsection \<open>Commands\<close>

text \<open>
  Each handler is a function of the state before the command; a command runs to
  completion before the next one starts.
\<close>

definition handleAddShape :: "env \<Rightarrow> ShapeType \<Rightarrow> string \<Rightarrow> appState \<Rightarrow> appState" where
  "handleAddShape env ty randomColor s =
     (let newObject = SceneObject (generateId env (nextId s)) ty (0, 0, 10) (0, 0, 0) (Fin 20, Fin 20, Fin 20)
            (Some (0, 0, 0)) randomColor
            (typeLabel ty @ '' '' @ decimal (length (objects s) + 1)) None None None
      in (saveToHistory s)\<lparr> objects := objects s @ [newObject],
                              selectedIds := [obj_id newObject],
                              nextId := Suc (nextId s) \<rparr>)"

definition handleUpdateObject :: "string \<Rightarrow> updates \<Rightarrow> appState \<Rightarrow> appState" where
  "handleUpdateObject i u s =
     (saveToHistory s)\<lparr> objects := updateObjectRecursive (objects s) i u \<rparr>"

definition handleDeleteObject :: "string \<Rightarrow> appState \<Rightarrow> appState" where
  "handleDeleteObject i s =
     (saveToHistory s)\<lparr> objects := deleteObjectRecursive (objects s) [i],
                          selectedIds := filter (\<lambda>sid. sid \<noteq> i) (selectedIds s) \<rparr>"

definition handleDuplicateObject :: "env \<Rightarrow> string \<Rightarrow> appState \<Rightarrow> appState" where
  "handleDuplicateObject env i s =
     (let s1 = saveToHistory s
      in case findObjectRecursive (objects s) i of
           None \<Rightarrow> s1
         | Some original \<Rightarrow>
             (let existingNames = getAllNames (objects s);
                  newName = uniqueName existingNames (rootName (name original))
              in case deepClone env newName original True (nextId s) of
                   (newObject, n') \<Rightarrow>
                     s1\<lparr> objects := objects s @ [newObject],
                         selectedIds := [obj_id newObject],
                         nextId := n' \<rparr>))"

definition handleSelect :: "string option \<Rightarrow> bool \<Rightarrow> appState \<Rightarrow> appState" where
  "handleSelect i multi s =
     (case i of
        None \<Rightarrow> s\<lparr> selectedIds := [] \<rparr>
      | Some x \<Rightarrow>
          if multi
          then (if x \<in> set (selectedIds s)
                then s\<lparr> selectedIds := filter (\<lambda>pid. pid \<noteq> x) (selectedIds s) \<rparr>
                else s\<lparr> selectedIds := selectedIds s @ [x] \<rparr>)
          else s\<lparr> selectedIds := [x] \<rparr>)"

definition centerOf :: "SceneObject list \<Rightarrow> vec3" where
  "centerOf os = (case foldl vadd (0, 0, 0) (map position os) of
     (x, y, z) \<Rightarrow> (x * (1 / real (length os)), y * (1 / real (length os)), z * (1 / real (length os))))"

definition withPosition :: "SceneObject \<Rightarrow> vec3 \<Rightarrow> SceneObject" where
  "withPosition obj p = SceneObject (obj_id obj) (obj_type obj) p (rotation obj) (scale obj)
     (pivot obj) (color obj) (name obj) (children obj) (geometryData obj) (baseDimensions obj)"

definition handleGroup :: "env \<Rightarrow> appState \<Rightarrow> appState" where
  "handleGroup env s =
     (if length (selectedIds s) < 2 then s
      else (let s1 = saveToHistory s;
                selectedObjects = filter (\<lambda>obj. obj_id obj \<in> set (selectedIds s)) (objects s);
                otherObjects = filter (\<lambda>obj. obj_id obj \<notin> set (selectedIds s)) (objects s)
            in if length selectedObjects = 0 then s1
               else (let center = centerOf selectedObjects;
                         children = map (\<lambda>obj. withPosition obj (vsub (position obj) center)) selectedObjects;
                         newGroup = SceneObject (generateId env (nextId s)) Group center (0, 0, 0) (Fin 1, Fin 1, Fin 1)
                           (Some (0, 0, 0)) ''#ffffff''
                           (''Group '' @ decimal (length (objects s) + 1)) (Some children) None None
                     in s1\<lparr> objects := otherObjects @ [newGroup],
                            selectedIds := [obj_id newGroup],
                            notification := Some (''Objects grouped successfully.'', Success),
                            nextId := Suc (nextId s) \<rparr>)))"

definition ungroupChild :: "env \<Rightarrow> SceneObject \<Rightarrow> SceneObject \<Rightarrow> SceneObject" where
  "ungroupChild env grp child =
     (case reparent env (position grp, rotation grp, scale grp)
                        (position child, rotation child, scale child) of
        (pos, euler, sc) \<Rightarrow>
          SceneObject (obj_id child) (obj_type child) pos euler sc
            (Some (orElse (pivot child) (0, 0, 0))) (color child) (name child) (children child)
            (geometryData child) (baseDimensions child))"

definition handleUngroup :: "env \<Rightarrow> appState \<Rightarrow> appState" where
  "handleUngroup env s =
     (if length (selectedIds s) \<noteq> 1 then s
      else (case List.find (\<lambda>obj. obj_id obj = selectedIds s ! 0) (objects s) of
              None \<Rightarrow> s
            | Some grp \<Rightarrow>
                if obj_type grp \<noteq> Group then s
                else (case children grp of
                        None \<Rightarrow> s
                      | Some cs \<Rightarrow>
                          (let newChildren = map (ungroupChild env grp) cs;
                               otherObjects = filter (\<lambda>obj. obj_id obj \<noteq> obj_id grp) (objects s)
                           in (saveToHistory s)\<lparr> objects := otherObjects @ newChildren,
                                 selectedIds := map obj_id newChildren,
                                 notification := Some (''Group ungrouped.'', Success) \<rparr>))))"

definition performBooleanOperation :: "env \<Rightarrow> operation \<Rightarrow> appState \<Rightarrow> appState" where
  "performBooleanOperation env op s =
     (if length (selectedIds s) \<noteq> 2
      then showNotification ''Please select exactly two objects for this operation.'' Error s
      else (let idA = selectedIds s ! 0; idB = selectedIds s ! 1
            in case (findObjectRecursive (objects s) idA, findObjectRecursive (objects s) idB) of
                 (Some objA, Some objB) \<Rightarrow>
                   if obj_type objA = Group \<or> obj_type objB = Group
                   then showNotification
                     ''Boolean operations are not supported on Groups yet. Please ungroup them first.'' Error s
                   else (case executeBooleanOperation env (nextId s) objA objB op of
                           ((None, err), n') \<Rightarrow>
                             showNotification (''Boolean operation failed: '' @
                               (case err of None \<Rightarrow> ''Unknown error''
                                | Some e \<Rightarrow> if e = [] then ''Unknown error'' else e)) Error s
                         | ((Some resultObject, err), n') \<Rightarrow>
                             (saveToHistory s)\<lparr>
                               objects := deleteObjectRecursive (objects s) [idA, idB] @ [resultObject],
                               selectedIds := [obj_id resultObject],
                               notification := Some (''Boolean operation successful!'', Success),
                               nextId := n' \<rparr>)
               | _ \<Rightarrow> showNotification ''Selected objects could not be found.'' Error s))"

definition handleBooleanOperation :: "env \<Rightarrow> operation \<Rightarrow> appState \<Rightarrow> appState" where
  "handleBooleanOperation env op s =
     (if length (selectedIds s) \<noteq> 2 then s else performBooleanOperation env op s)"

datatype command =
    AddShape ShapeType string
  | UpdateObject string updates
  | DeleteObject string
  | DuplicateObject string
  | Select "string option" bool
  | GroupSelected
  | UngroupSelected
  | BooleanOperation operation

fun exec :: "env \<Rightarrow> appState \<Rightarrow> command \<Rightarrow> appState" where
  "exec env s (AddShape ty col) = handleAddShape env ty col s"
| "exec env s (UpdateObject i u) = handleUpdateObject i u s"
| "exec env s (DeleteObject i) = handleDeleteObject i s"
| "exec env s (DuplicateObject i) = handleDuplicateObject env i s"
| "exec env s (Select i multi) = handleSelect i multi s"
| "exec env s GroupSelected = handleGroup env s"
| "exec env s UngroupSelected = handleUngroup env s"
| "exec env s (BooleanOperation op) = handleBooleanOperation env op s"

definition run :: "env \<Rightarrow> appState \<Rightarrow> command list \<Rightarrow> appState" where
  "run env s cmds = foldl (exec env) s cmds"

section \<open>Auxiliary notions for the proofs\<close>

text \<open>The rotation part of \<open>compose\<close>, its transpose, and scaling by components.\<close>

definition rot :: "quaternion \<Rightarrow> vec3 \<Rightarrow> vec3" where
  "rot q v = (case q of (x, y, z, w) \<Rightarrow> case v of (a, b, c) \<Rightarrow>
     ((1 - (y * (y + y) + z * (z + z))) * a + (x * (y + y) - w * (z + z)) * b + (x * (z + z) + w * (y + y)) * c,
      (x * (y + y) + w * (z + z)) * a + (1 - (x * (x + x) + z * (z + z))) * b + (y * (z + z) - w * (x + x)) * c,
      (x * (z + z) - w * (y + y)) * a + (y * (z + z) + w * (x + x)) * b + (1 - (x * (x + x) + y * (y + y))) * c))"

definition rotT :: "quaternion \<Rightarrow> vec3 \<Rightarrow> vec3" where
  "rotT q v = (case q of (x, y, z, w) \<Rightarrow> rot (- x, - y, - z, w) v)"

definition vscale :: "vec3 \<Rightarrow> vec3 \<Rightarrow> vec3" where
  "vscale s v = (case s of (sx, sy, sz) \<Rightarrow> case v of (a, b, c) \<Rightarrow> (sx * a, sy * b, sz * c))"

definition vunscale :: "vec3 \<Rightarrow> vec3 \<Rightarrow> vec3" where
  "vunscale s v = (case s of (sx, sy, sz) \<Rightarrow> case v of (a, b, c) \<Rightarrow> (a / sx, b / sy, c / sz))"

text \<open>Concrete scenes and a concrete environment, for evaluating the code.\<close>

definition unionVertices :: "vec3 list" where
  "unionVertices =
     [(-1/2, -1/2, -1/2), (-1/2, -1/2, 1/2), (-1/2, 1/2, -1/2), (-1/2, 1/2, 1/2),
      (1, -1/2, -1/2), (1, -1/2, 1/2), (1, 1/2, -1/2), (1, 1/2, 1/2)]"

definition unionGeometry :: geometry where
  "unionGeometry = \<lparr> positionAttr = Some (map fromVec3 unionVertices) \<rparr>"

text \<open>
  A combinator for the examples: the union of the two unit boxes of the examples,
  an empty mesh for a subtraction, no mesh for an intersection.  Like the
  library's combinator it gives the result the transform of the first operand.
\<close>

definition exampleCsg :: "operation \<Rightarrow> mesh \<Rightarrow> mesh \<Rightarrow> csgOutcome" where
  "exampleCsg op a b =
     (case op of
        UnionOp \<Rightarrow> ResultMesh (a\<lparr> mesh_geometry := unionGeometry \<rparr>)
      | SubtractOp \<Rightarrow> ResultMesh (a\<lparr> mesh_geometry := \<lparr> positionAttr = Some [] \<rparr> \<rparr>)
      | IntersectOp \<Rightarrow> NoResultMesh)"

definition exampleEnv :: env where
  "exampleEnv = \<lparr> generateId = (\<lambda>n. replicate (Suc n) CHR ''i''),
                   primitiveGeometry = (\<lambda>t. BoxGeometry),
                   csg = exampleCsg,
                   reparent = (\<lambda>g c. c) \<rparr>"

definition unitBox :: "string \<Rightarrow> string \<Rightarrow> vec3 \<Rightarrow> SceneObject" where
  "unitBox i nm p = SceneObject i Box p (0, 0, 0) (Fin 1, Fin 1, Fin 1) (Some (0, 0, 0)) ''#808080'' nm None None None"

definition pivotBox :: SceneObject where
  "pivotBox = SceneObject ''a'' Box (0, 0, 0) (0, 0, 0) (Fin 2, Fin 2, Fin 2) (Some (1, 0, 0)) ''#808080'' ''Box 1''
     None None None"

definition flatBox :: SceneObject where
  "flatBox = SceneObject ''a'' Box (0, 0, 0) (0, 0, 0) (Fin 0, Fin (- (1/2000)), Fin 3) None ''#808080'' ''Box 1''
     None None None"

definition oneBoxState :: appState where
  "oneBoxState = \<lparr> objects = [unitBox ''a'' ''Box 1'' (0, 0, 0)], past = [],
     future = [[unitBox ''a'' ''Box 1'' (0, 0, 0), unitBox ''b'' ''Box 2'' (0, 0, 0)]],
     selectedIds = [], notification = None, nextId = 0 \<rparr>"

definition nanScaleBox :: SceneObject where
  "nanScaleBox = SceneObject ''a'' Box (0, 0, 0) (0, 0, 0) (NaN, Fin 0, PosInf) None ''#808080'' ''Box 1''
     None None None"

definition tinyMeshNode :: SceneObject where
  "tinyMeshNode = SceneObject ''m'' Custom (0, 0, 0) (0, 0, 0) (Fin 1, Fin 1, Fin 1) (Some (0, 0, 0)) ''#808080''
     ''mesh'' None
     (Some (GeometryJSON \<lparr> positionAttr = Some [(Fin 0, Fin 0, Fin 0), (Fin 1, Fin 0, Fin 0)] \<rparr>))
     (Some (1, 1, 1))"

definition nanMeshNode :: SceneObject where
  "nanMeshNode = SceneObject ''n'' Custom (0, 0, 0) (0, 0, 0) (Fin 1, Fin 1, Fin 1) (Some (0, 0, 0)) ''#808080''
     ''mesh'' None
     (Some (GeometryJSON \<lparr> positionAttr =
        Some [(Fin 0, Fin 0, Fin 0), (Fin 1, Fin 0, Fin 0), (Fin 0, NaN, Fin 0)] \<rparr>))
     (Some (1, 1, 1))"

definition malformedMeshNode :: SceneObject where
  "malformedMeshNode = SceneObject ''u'' Custom (0, 0, 0) (0, 0, 0) (Fin 1, Fin 1, Fin 1) (Some (0, 0, 0)) ''#808080''
     ''mesh'' None (Some Malformed) (Some (1, 1, 1))"

text \<open>
  A boolean-combine command fails when the selection is not two identifiers that
  resolve to two objects, when an operand is a group, when a mesh cannot be
  created, or when the combine does not give a valid result (the combinator
  fails, or its result is invalid or empty).
\<close>

definition booleanCommandFails :: "env \<Rightarrow> operation \<Rightarrow> appState \<Rightarrow> bool" where
  "booleanCommandFails env op s =
     (if length (selectedIds s) \<noteq> 2 then True
      else (case (findObjectRecursive (objects s) (selectedIds s ! 0),
                  findObjectRecursive (objects s) (selectedIds s ! 1)) of
              (Some objA, Some objB) \<Rightarrow>
                obj_type objA = Group \<or> obj_type objB = Group \<or>
                createMeshFromObject env objA = None \<or> createMeshFromObject env objB = None \<or>
                \<not> isValid (performOperation env (createMeshFromObject env objA)
                               (createMeshFromObject env objB) op)
            | _ \<Rightarrow> True))"

definition twoBoxState :: appState where
  "twoBoxState = \<lparr> objects = [unitBox ''a'' ''Box 1'' (0, 0, 0), unitBox ''b'' ''Box 2'' (0, 0, 0)],
     past = [[unitBox ''a'' ''Box 1'' (0, 0, 0)]], future = [[]],
     selectedIds = [''a'', ''b''], notification = None, nextId = 2 \<rparr>"

definition unitBoxMesh :: mesh where
  "unitBoxMesh = \<lparr> mesh_geometry = BoxGeometry, mesh_position = (0, 0, 0),
     mesh_quaternion = (0, 0, 0, 1), mesh_scale = (Fin 1, Fin 1, Fin 1) \<rparr>"

definition unionNode :: SceneObject where
  "unionNode = SceneObject ''i'' Custom (1/4, 0, 0) (0, 0, 0) (Fin (3/2), Fin 1, Fin 1) (Some (0, 0, 0)) ''#808080''
     ''Union Result'' None (Some (GeometryJSON unionGeometry)) (Some (1, 1, 1))"

text \<open>
  The invariant of identifier uniqueness: the identifiers of the forest are
  pairwise distinct and were all issued by the generator.
\<close>

definition uniqueIds :: "env \<Rightarrow> appState \<Rightarrow> bool" where
  "uniqueIds env s =
     (distinct (allIds (objects s)) \<and> set (allIds (objects s)) \<subseteq> generateId env ` {..<nextId s})"

text \<open>The commands that take their identifiers from the generator only.\<close>

fun generatorOnly :: "command \<Rightarrow> bool" where
  "generatorOnly (UpdateObject i u) = False"
| "generatorOnly c = True"

text \<open>The length of a copy suffix, read off the reversed name.\<close>

definition copySuffixLength :: "string \<Rightarrow> nat" where
  "copySuffixLength r = (if take 2 r = '')y'' then 7 else 8 + length (takeWhile isDigit (tl r)))"

definition singleLine :: "string \<Rightarrow> bool" where
  "singleLine s = list_all (\<lambda>c. \<not> isLineTerminator c) s"

definition lastName :: "appState \<Rightarrow> string" where
  "lastName s = name (last (objects s))"

definition boxScene :: appState where
  "boxScene = initialState [unitBox ''a'' ''Box 1'' (0, 0, 0)] 1"

definition groupThenDuplicate :: "command list" where
  "groupThenDuplicate =
     [AddShape Box ''#ff0000'', AddShape Sphere ''#00ff00'',
      Select (Some ''i'') False, Select (Some ''ii'') True,
      GroupSelected, DuplicateObject ''iii'']"

definition twoLineName :: string where
  "twoLineName = ''A'' @ [CHR 0x0A] @ ''B (Copy)''"

definition copiedBox :: SceneObject where
  "copiedBox = SceneObject ''ii'' Box (5, 0, 5) (0, 0, 0) (Fin 1, Fin 1, Fin 1) (Some (0, 0, 0))
     ''#808080'' ''Box 1 (Copy)'' None None None"

definition copiedScene :: appState where
  "copiedScene = \<lparr> objects = [unitBox ''a'' ''Box 1'' (0, 0, 0), copiedBox],
     past = [[unitBox ''a'' ''Box 1'' (0, 0, 0)]], future = [],
     selectedIds = [''ii''], notification = None, nextId = 2 \<rparr>"

section \<open>History: undo and redo\<close>

lemma take_last_id: "xs \<noteq> [] \<Longrightarrow> take (length xs - Suc 0) xs @ [last xs] = xs"
  by (metis One_nat_def append_butlast_last_id butlast_conv_take)

lemma redo_undo: "past s \<noteq> [] \<Longrightarrow> redo (undo s) = s"
  by (simp add: undo_def redo_def take_last_id)

lemma undo_empty: "past s = [] \<Longrightarrow> undo s = s"
  by (simp add: undo_def)

lemma redo_empty: "future s = [] \<Longrightarrow> redo s = s"
  by (simp add: redo_def)

lemma length_past_undo: "length (past (undo s)) = length (past s) - 1"
  by (simp add: undo_def)

lemma length_past_undo_pow: "length (past ((undo ^^ k) s)) = length (past s) - k"
  by (induction k) (simp_all add: length_past_undo)

lemma redo_undo_pow:
  "k \<le> length (past s) \<Longrightarrow> (redo ^^ k) ((undo ^^ k) s) = s"
proof (induction k)
  case 0
  show ?case by simp
next
  case (Suc k)
  have "length (past ((undo ^^ k) s)) = length (past s) - k"
    by (rule length_past_undo_pow)
  with Suc.prems have ne: "past ((undo ^^ k) s) \<noteq> []" by auto
  have "(redo ^^ Suc k) ((undo ^^ Suc k) s) = (redo ^^ k) (redo (undo ((undo ^^ k) s)))"
    by (simp add: funpow_swap1)
  also have "\<dots> = (redo ^^ k) ((undo ^^ k) s)"
    by (simp add: redo_undo[OF ne])
  also have "\<dots> = s" using Suc by simp
  finally show ?case .
qed

lemma undo_pow_saturate:
  "length (past s) \<le> k \<Longrightarrow> (undo ^^ k) s = (undo ^^ length (past s)) s"
proof (induction k)
  case 0
  then show ?case by simp
next
  case (Suc k)
  show ?case
  proof (cases "length (past s) = Suc k")
    case True
    then show ?thesis by simp
  next
    case False
    with Suc.prems have le: "length (past s) \<le> k" by simp
    have "past ((undo ^^ k) s) = []"
      using length_past_undo_pow[of k s] le by simp
    then have "(undo ^^ Suc k) s = (undo ^^ k) s" by (simp add: undo_empty)
    with Suc.IH[OF le] show ?thesis by simp
  qed
qed

lemma redo_pow_empty: "future s = [] \<Longrightarrow> (redo ^^ k) s = s"
  by (induction k) (simp_all add: redo_empty)

text \<open>
  With no pending redo, \<open>n\<close> undos followed by \<open>n\<close> redos restore the state, also
  when fewer than \<open>n\<close> snapshots are on the past stack.
\<close>

lemma undo_redo_all:
  assumes "future s = []"
  shows "(redo ^^ n) ((undo ^^ n) s) = s"
proof (cases "n \<le> length (past s)")
  case True
  then show ?thesis by (rule redo_undo_pow)
next
  case False
  define m where "m = length (past s)"
  from False have mn: "m \<le> n" by (simp add: m_def)
  have "(undo ^^ n) s = (undo ^^ m) s"
    unfolding m_def using mn by (intro undo_pow_saturate) (simp add: m_def)
  moreover have "(redo ^^ n) t = (redo ^^ (n - m)) ((redo ^^ m) t)" for t
    using mn funpow_add[of "n - m" m redo] by simp
  ultimately have "(redo ^^ n) ((undo ^^ n) s) = (redo ^^ (n - m)) ((redo ^^ m) ((undo ^^ m) s))"
    by simp
  also have "\<dots> = (redo ^^ (n - m)) s"
    by (simp add: redo_undo_pow m_def)
  also have "\<dots> = s" using assms by (rule redo_pow_empty)
  finally show ?thesis .
qed

lemma future_exec:
  assumes "future s = []"
  shows "future (exec env s c) = []"
proof (cases c)
  case (AddShape ty col)
  then show ?thesis by (simp add: handleAddShape_def saveToHistory_def Let_def)
next
  case (UpdateObject i u)
  then show ?thesis by (simp add: handleUpdateObject_def saveToHistory_def)
next
  case (DeleteObject i)
  then show ?thesis by (simp add: handleDeleteObject_def saveToHistory_def)
next
  case (DuplicateObject i)
  then show ?thesis
    by (simp add: handleDuplicateObject_def saveToHistory_def Let_def split: option.splits prod.splits)
next
  case (Select i m)
  then show ?thesis using assms by (simp add: handleSelect_def split: option.splits)
next
  case GroupSelected
  then show ?thesis using assms
    by (simp add: handleGroup_def saveToHistory_def Let_def)
next
  case UngroupSelected
  then show ?thesis using assms
    by (simp add: handleUngroup_def saveToHistory_def Let_def split: option.splits)
next
  case (BooleanOperation op)
  then show ?thesis using assms
    by (simp add: handleBooleanOperation_def performBooleanOperation_def showNotification_def
        saveToHistory_def Let_def split: option.splits prod.splits)
qed

lemma future_run: "future s = [] \<Longrightarrow> future (run env s cmds) = []"
  unfolding run_def by (induction cmds arbitrary: s) (simp_all add: future_exec)

text \<open>
  C6.  From any initial graph \<open>g\<close> (with an empty history), after any sequence of
  \<open>N\<close> commands, \<open>N\<close> undos followed by \<open>N\<close> redos give back the state reached by
  the commands: the same forest, identifiers included, and the same stacks.
\<close>

theorem undo_redo_inverse:
  "(redo ^^ length cmds) ((undo ^^ length cmds) (run env (initialState g n) cmds))
     = run env (initialState g n) cmds"
  by (rule undo_redo_all) (simp add: future_run initialState_def)

section \<open>Lookup and duplication of an unknown identifier\<close>

lemma find_unknown:
  "i \<notin> set (allIds os) \<Longrightarrow> findObjectRecursive os i = None"
  "i \<notin> set (idsOf ob) \<Longrightarrow> findInObject ob i = None"
  by (induction os i and ob i rule: findObjectRecursive_findInObject.induct)
     (auto split: option.splits)

text \<open>
  C10.  Duplicating an identifier that occurs nowhere in the forest leaves the
  forest (and selection, notification and identifier counter) as they are, but
  pushes the current forest onto the past stack and empties the future stack.
\<close>

theorem duplicate_unknown_id_pushes_history:
  "i \<notin> set (allIds (objects s)) \<Longrightarrow>
     handleDuplicateObject env i s = s\<lparr> past := past s @ [objects s], future := [] \<rparr>"
  by (simp add: handleDuplicateObject_def find_unknown saveToHistory_def)

theorem duplicate_unknown_id_witness:
  "''zz'' \<notin> set (allIds (objects oneBoxState)) \<and>
   objects (handleDuplicateObject exampleEnv ''zz'' oneBoxState) = objects oneBoxState \<and>
   past (handleDuplicateObject exampleEnv ''zz'' oneBoxState) = [objects oneBoxState] \<and>
   future oneBoxState \<noteq> [] \<and>
   future (handleDuplicateObject exampleEnv ''zz'' oneBoxState) = []"
proof -
  have h: "''zz'' \<notin> set (allIds (objects oneBoxState))"
    by (simp add: oneBoxState_def unitBox_def)
  show ?thesis
    using h duplicate_unknown_id_pushes_history[OF h, of exampleEnv]
    by (simp add: oneBoxState_def)
qed

section \<open>World placement in the boolean engine\<close>

lemma validate_BoxGeometry: "validateGeometry BoxGeometry"
  by (simp add: validateGeometry_def BoxGeometry_def boxVertices_def fromVec3_def)

lemma setFromEuler_unit: "setFromEuler e = (x, y, z, w) \<Longrightarrow> x * x + y * y + z * z + w * w = 1"
proof -
  obtain a b c where e: "e = (a, b, c)" by (cases e)
  have 1: "sin (a/2) * sin (a/2) + cos (a/2) * cos (a/2) = 1"
    using sin_cos_squared_add[of "a/2"] by (simp add: power2_eq_square)
  have 2: "sin (b/2) * sin (b/2) + cos (b/2) * cos (b/2) = 1"
    using sin_cos_squared_add[of "b/2"] by (simp add: power2_eq_square)
  have 3: "sin (c/2) * sin (c/2) + cos (c/2) * cos (c/2) = 1"
    using sin_cos_squared_add[of "c/2"] by (simp add: power2_eq_square)
  assume "setFromEuler e = (x, y, z, w)"
  then have x: "x = sin (a/2) * cos (b/2) * cos (c/2) + cos (a/2) * sin (b/2) * sin (c/2)"
    and y: "y = cos (a/2) * sin (b/2) * cos (c/2) - sin (a/2) * cos (b/2) * sin (c/2)"
    and z: "z = cos (a/2) * cos (b/2) * sin (c/2) + sin (a/2) * sin (b/2) * cos (c/2)"
    and w: "w = cos (a/2) * cos (b/2) * cos (c/2) - sin (a/2) * sin (b/2) * sin (c/2)"
    by (simp_all add: e setFromEuler_def Let_def)
  show ?thesis unfolding x y z w using 1 2 3 by algebra
qed

text \<open>On finite scale and finite vertices the composed matrix acts as over the reals.\<close>

lemma applyMatrix4_compose:
  "applyMatrix4 (compose p q (fromVec3 s)) (fromVec3 v) = fromVec3 (vadd p (rot q (vscale s v)))"
  by (cases p; cases q; cases s; cases v)
     (simp add: applyMatrix4_def compose_def row_def fromVec3_def rot_def vscale_def vadd_def Let_def
       algebra_simps)

lemma rotT_rot:
  assumes "x * x + y * y + z * z + w * w = 1"
  shows "rotT (x, y, z, w) (rot (x, y, z, w) (a, b, c)) = (a, b, c)"
proof -
  have 1: "fst (rotT (x, y, z, w) (rot (x, y, z, w) (a, b, c))) = a"
    unfolding rotT_def rot_def using assms by simp algebra
  have 2: "fst (snd (rotT (x, y, z, w) (rot (x, y, z, w) (a, b, c)))) = b"
    unfolding rotT_def rot_def using assms by simp algebra
  have 3: "snd (snd (rotT (x, y, z, w) (rot (x, y, z, w) (a, b, c)))) = c"
    unfolding rotT_def rot_def using assms by simp algebra
  show ?thesis using 1 2 3 by (metis prod.collapse)
qed

lemma rot_rotT:
  assumes "x * x + y * y + z * z + w * w = 1"
  shows "rot (x, y, z, w) (rotT (x, y, z, w) (a, b, c)) = (a, b, c)"
proof -
  have "rot (x, y, z, w) (rotT (x, y, z, w) (a, b, c))
        = rotT (- x, - y, - z, w) (rot (- x, - y, - z, w) (a, b, c))"
    by (simp add: rotT_def)
  also have "\<dots> = (a, b, c)"
    using assms by (intro rotT_rot) simp
  finally show ?thesis .
qed

lemma vunscale_vscale:
  "fst s \<noteq> 0 \<Longrightarrow> fst (snd s) \<noteq> 0 \<Longrightarrow> snd (snd s) \<noteq> 0 \<Longrightarrow> vunscale s (vscale s v) = v"
  by (cases s; cases v) (simp add: vunscale_def vscale_def)

lemma vscale_vunscale:
  "fst s \<noteq> 0 \<Longrightarrow> fst (snd s) \<noteq> 0 \<Longrightarrow> snd (snd s) \<noteq> 0 \<Longrightarrow> vscale s (vunscale s v) = v"
  by (cases s; cases v) (simp add: vunscale_def vscale_def)

lemma vsub_vadd: "vsub (vadd p v) p = v" "vadd p (vsub v p) = v"
  by (cases p; cases v; simp add: vsub_def vadd_def)+

lemma placement_bij:
  assumes u: "x * x + y * y + z * z + w * w = 1"
    and s: "fst s \<noteq> 0" "fst (snd s) \<noteq> 0" "snd (snd s) \<noteq> 0"
  shows "bij (\<lambda>v. vadd p (rot (x, y, z, w) (vscale s v)))"
proof -
  let ?f = "\<lambda>v. vadd p (rot (x, y, z, w) (vscale s v))"
  let ?g = "\<lambda>v. vunscale s (rotT (x, y, z, w) (vsub v p))"
  have gf: "?g (?f v) = v" for v
  proof -
    obtain a b c where v: "vscale s v = (a, b, c)" by (cases "vscale s v")
    show ?thesis
      by (simp add: vsub_vadd v rotT_rot[OF u])
         (metis v vunscale_vscale s)
  qed
  have fg: "?f (?g v) = v" for v
  proof -
    obtain a b c where v: "vsub v p = (a, b, c)" by (cases "vsub v p")
    show ?thesis
      by (simp add: vscale_vunscale s v rot_rotT[OF u])
         (metis v vsub_vadd(2))
  qed
  show ?thesis
    by (rule bij_betw_byWitness[where f' = ?g]) (auto simp: gf fg)
qed

lemma scaleComponent_Fin:
  "scaleComponent (Fin s) = Fin (if \<bar>s\<bar> < 1/1000 then (if s \<ge> 0 then 1/1000 else - (1/1000)) else s)"
  by (simp add: scaleComponent_def)

lemma scaleComponent_nonfinite:
  "scaleComponent NaN = NaN" "scaleComponent PosInf = PosInf" "scaleComponent NegInf = NegInf"
  by (simp_all add: scaleComponent_def)

lemma createMesh_fields:
  assumes "createMeshFromObject env obj = Some m"
  shows "mesh_quaternion m = setFromEuler (rotation obj)"
    and "mesh_scale m = (case scale obj of (sx, sy, sz) \<Rightarrow>
            (scaleComponent sx, scaleComponent sy, scaleComponent sz))"
    and "mesh_position m = (case pivot obj of Some pv \<Rightarrow> vadd (position obj) pv | None \<Rightarrow> position obj)"
  using assms by (auto simp: createMeshFromObject_def Let_def split: if_splits)

text \<open>
  Downstream, a decomposition reads the scale as the lengths of the first three
  columns of the matrix.  For finite components these are the magnitudes of the
  components.
\<close>

lemma compose_column_lengths:
  assumes "setFromEuler e = q"
  shows "\<exists>e0 e1 e2 e3 e4 e5 e6 e7 e8 e9 e10 e11 e12 e13 e14 e15.
           compose p q (Fin sx, Fin sy, Fin sz)
             = map Fin [e0, e1, e2, e3, e4, e5, e6, e7, e8, e9, e10, e11, e12, e13, e14, e15] \<and>
           sqrt (e0 * e0 + e1 * e1 + e2 * e2) = \<bar>sx\<bar> \<and>
           sqrt (e4 * e4 + e5 * e5 + e6 * e6) = \<bar>sy\<bar> \<and>
           sqrt (e8 * e8 + e9 * e9 + e10 * e10) = \<bar>sz\<bar>"
proof -
  obtain x y z w where q: "q = (x, y, z, w)" by (cases q)
  obtain px py pz where p: "p = (px, py, pz)" by (cases p)
  from setFromEuler_unit[of e x y z w] assms q have u: "x * x + y * y + z * z + w * w = 1" by simp
  have c0: "(1 - (y * (2 * y) + z * (2 * z))) * sx * ((1 - (y * (2 * y) + z * (2 * z))) * sx)
      + (x * (2 * y) + w * (2 * z)) * sx * ((x * (2 * y) + w * (2 * z)) * sx)
      + (x * (2 * z) - w * (2 * y)) * sx * ((x * (2 * z) - w * (2 * y)) * sx) = sx * sx"
    using u by algebra
  have c1: "(x * (2 * y) - w * (2 * z)) * sy * ((x * (2 * y) - w * (2 * z)) * sy)
      + (1 - (x * (2 * x) + z * (2 * z))) * sy * ((1 - (x * (2 * x) + z * (2 * z))) * sy)
      + (y * (2 * z) + w * (2 * x)) * sy * ((y * (2 * z) + w * (2 * x)) * sy) = sy * sy"
    using u by algebra
  have c2: "(x * (2 * z) + w * (2 * y)) * sz * ((x * (2 * z) + w * (2 * y)) * sz)
      + (y * (2 * z) - w * (2 * x)) * sz * ((y * (2 * z) - w * (2 * x)) * sz)
      + (1 - (x * (2 * x) + y * (2 * y))) * sz * ((1 - (x * (2 * x) + y * (2 * y))) * sz) = sz * sz"
    using u by algebra
  show ?thesis
    apply (rule exI[of _ "(1 - (y * (2 * y) + z * (2 * z))) * sx"])
    apply (rule exI[of _ "(x * (2 * y) + w * (2 * z)) * sx"])
    apply (rule exI[of _ "(x * (2 * z) - w * (2 * y)) * sx"])
    apply (rule exI[of _ 0])
    apply (rule exI[of _ "(x * (2 * y) - w * (2 * z)) * sy"])
    apply (rule exI[of _ "(1 - (x * (2 * x) + z * (2 * z))) * sy"])
    apply (rule exI[of _ "(y * (2 * z) + w * (2 * x)) * sy"])
    apply (rule exI[of _ 0])
    apply (rule exI[of _ "(x * (2 * z) + w * (2 * y)) * sz"])
    apply (rule exI[of _ "(y * (2 * z) - w * (2 * x)) * sz"])
    apply (rule exI[of _ "(1 - (x * (2 * x) + y * (2 * y))) * sz"])
    apply (rule exI[of _ 0])
    apply (rule exI[of _ px])
    apply (rule exI[of _ py])
    apply (rule exI[of _ pz])
    apply (rule exI[of _ 1])
    apply (simp add: q p compose_def Let_def c0 c1 c2)
    done
qed

text \<open>
  The claim C9 as stated fails: a scale component that is NaN or infinite is not
  floored, because the comparison with 0.001 is false for it.  The effective
  scale is then not finite, and the world placement sends different vertices to
  the same non-finite triple.
\<close>

theorem scale_floor_skips_nonfinite_counterexample:
  "createMeshFromObject exampleEnv nanScaleBox \<noteq> None \<and>
   map_option mesh_scale (createMeshFromObject exampleEnv nanScaleBox) = Some (NaN, Fin (1/1000), PosInf) \<and>
   map_option (\<lambda>m. worldVertex m (Fin 0, Fin 0, Fin 0)) (createMeshFromObject exampleEnv nanScaleBox)
     = Some (NaN, NaN, NaN) \<and>
   map_option (\<lambda>m. worldVertex m (Fin 1, Fin 0, Fin 0)) (createMeshFromObject exampleEnv nanScaleBox)
     = Some (NaN, NaN, NaN)"
  by (simp add: createMeshFromObject_def nanScaleBox_def validate_BoxGeometry scaleComponent_def
      worldVertex_def matrixWorld_def compose_def applyMatrix4_def row_def setFromEuler_def Let_def)

text \<open>
  C9, amended.  For every scene object with finite position, rotation, pivot
  and scale that the boolean engine turns into a mesh, each scale component
  whose magnitude is below 0.001 is replaced by 0.001 with the sign of the
  component (0 counting as positive), every other scale component is kept, every
  effective scale component is finite and not 0, and the world placement of
  finite vertices is a bijection of space, hence invertible, also when a scale
  component is 0.  Finite arithmetic being exact here, the statement covers the
  finite components whose products do not overflow in the program.
\<close>

theorem scale_floor_invertible:
  assumes "createMeshFromObject env obj = Some m"
    and "scale obj = (Fin sx, Fin sy, Fin sz)"
  shows "\<exists>ex ey ez f.
           mesh_scale m = (Fin ex, Fin ey, Fin ez) \<and>
           list_all2 (\<lambda>s e. (\<bar>s\<bar> < 1/1000 \<longrightarrow> e = (if s < 0 then - (1/1000) else 1/1000)) \<and>
                            (1/1000 \<le> \<bar>s\<bar> \<longrightarrow> e = s) \<and> e \<noteq> 0)
             [sx, sy, sz] [ex, ey, ez] \<and>
           bij f \<and> (\<forall>v. worldVertex m (fromVec3 v) = fromVec3 (f v))"
proof -
  define e where "e = (\<lambda>s::real. if \<bar>s\<bar> < 1/1000 then (if s \<ge> 0 then 1/1000 else - (1/1000)) else s)"
  have ms: "mesh_scale m = fromVec3 (e sx, e sy, e sz)"
    using createMesh_fields(2)[OF assms(1)] assms(2)
    by (simp add: scaleComponent_Fin e_def fromVec3_def)
  have nz: "e s \<noteq> 0" for s by (simp add: e_def)
  obtain x y z w where q: "setFromEuler (rotation obj) = (x, y, z, w)"
    by (cases "setFromEuler (rotation obj)")
  let ?f = "\<lambda>v. vadd (mesh_position m) (rot (x, y, z, w) (vscale (e sx, e sy, e sz) v))"
  have b: "bij ?f"
    by (rule placement_bij[OF setFromEuler_unit[OF q]]) (simp_all add: nz)
  have p: "worldVertex m (fromVec3 v) = fromVec3 (?f v)" for v
    using createMesh_fields(1)[OF assms(1)] q ms
    by (simp add: worldVertex_def matrixWorld_def applyMatrix4_compose)
  have l: "list_all2 (\<lambda>s e. (\<bar>s\<bar> < 1/1000 \<longrightarrow> e = (if s < 0 then - (1/1000) else 1/1000)) \<and>
                            (1/1000 \<le> \<bar>s\<bar> \<longrightarrow> e = s) \<and> e \<noteq> 0)
             [sx, sy, sz] [e sx, e sy, e sz]"
    by (simp add: e_def)
  from ms have "mesh_scale m = (Fin (e sx), Fin (e sy), Fin (e sz))" by (simp add: fromVec3_def)
  with l b p show ?thesis by blast
qed

theorem scale_floor_witness:
  "\<exists>m f. createMeshFromObject exampleEnv flatBox = Some m \<and>
       scale flatBox = (Fin 0, Fin (- (1/2000)), Fin 3) \<and>
       mesh_scale m = (Fin (1/1000), Fin (- (1/1000)), Fin 3) \<and>
       bij f \<and> (\<forall>v. worldVertex m (fromVec3 v) = fromVec3 (f v))"
proof -
  obtain m where m: "createMeshFromObject exampleEnv flatBox = Some m"
    by (simp add: createMeshFromObject_def flatBox_def validate_BoxGeometry)
  have ms: "mesh_scale m = (Fin (1/1000), Fin (- (1/1000)), Fin 3)"
    using createMesh_fields(2)[OF m] by (simp add: flatBox_def scaleComponent_Fin)
  have sc: "scale flatBox = (Fin 0, Fin (- (1/2000)), Fin 3)" by (simp add: flatBox_def)
  from scale_floor_invertible[OF m sc] obtain f where
    "bij f" "\<forall>v. worldVertex m (fromVec3 v) = fromVec3 (f v)" by blast
  with m ms sc show ?thesis by blast
qed

text \<open>
  Where the boolean engine places a local vertex, and where the renderer shows
  it: the engine adds the pivot outside the transform, the renderer inside.
\<close>

lemma rot_identity: "rot (setFromEuler (0, 0, 0)) v = v"
  by (cases v) (simp add: rot_def setFromEuler_def)

lemma vscale_one: "vscale (1, 1, 1) v = v"
  by (cases v) (simp add: vscale_def)

lemma engine_placement:
  assumes "createMeshFromObject env obj = Some m" and "mesh_scale m = fromVec3 e"
  shows "worldVertex m (fromVec3 v) =
           fromVec3 (vadd (vadd (position obj) (orElse (pivot obj) (0, 0, 0)))
                          (rot (setFromEuler (rotation obj)) (vscale e v)))"
proof -
  have "mesh_position m = vadd (position obj) (orElse (pivot obj) (0, 0, 0))"
    using createMesh_fields(3)[OF assms(1)]
    by (cases "position obj"; cases "pivot obj") (simp_all add: orElse_def vadd_def)
  then show ?thesis
    using createMesh_fields(1)[OF assms(1)] assms(2)
    by (simp add: worldVertex_def matrixWorld_def applyMatrix4_compose)
qed

lemma renderer_placement:
  assumes "scale obj = fromVec3 s"
  shows "renderVertex obj (fromVec3 v) =
     fromVec3 (vadd (position obj)
          (rot (setFromEuler (rotation obj)) (vscale s (vadd (orElse (pivot obj) (0, 0, 0)) v))))"
proof -
  have one: "(Fin 1, Fin 1, Fin 1) = fromVec3 (1, 1, 1)" by (simp add: fromVec3_def)
  show ?thesis
    by (cases "pivot obj")
       (simp_all add: renderVertex_def assms one applyMatrix4_compose rot_identity vscale_one orElse_def)
qed

text \<open>
  C1.  The boolean engine adds the pivot to the mesh position, after rotation
  and scale have acted: for a box at the origin with scale 2 and pivot
  \<open>(1, 0, 0)\<close> the corner \<open>(1/2, 1/2, 1/2)\<close> is placed at \<open>(2, 1, 1)\<close>, whereas
  the renderer, which offsets the geometry inside the transformed group, shows
  it at \<open>2 * (1/2 + 1) = 3\<close>.
\<close>

theorem boolean_engine_adds_pivot_after_transform:
  "map_option (\<lambda>m. worldVertex m (Fin (1/2), Fin (1/2), Fin (1/2))) (createMeshFromObject env pivotBox)
     = Some (Fin 2, Fin 1, Fin 1)
   \<and> renderVertex pivotBox (Fin (1/2), Fin (1/2), Fin (1/2)) = (Fin 3, Fin 1, Fin 1)"
  by (simp add: pivotBox_def createMeshFromObject_def validate_BoxGeometry worldVertex_def
      matrixWorld_def renderVertex_def compose_def applyMatrix4_def row_def setFromEuler_def vadd_def
      scaleComponent_def Let_def)

section \<open>Realizing a custom mesh\<close>

lemma validateGeometry_iff:
  "validateGeometry g \<longleftrightarrow>
     (\<exists>ps. positionAttr g = Some ps \<and> 3 \<le> length ps \<and>
        list_all (\<lambda>v. case v of (x, y, z) \<Rightarrow> isFinite x \<and> isFinite y \<and> isFinite z) ps)"
  by (auto simp: validateGeometry_def split: option.splits)

text \<open>
  The claim C3 as stated fails: a custom mesh whose data parses to a geometry with
  two vertices, or with a non-finite coordinate, gives no mesh at all, and the
  boolean pipeline reports the failure.
\<close>

theorem custom_mesh_failure_counterexample:
  "obj_type tinyMeshNode = Custom \<and> createMeshFromObject exampleEnv tinyMeshNode = None \<and>
   obj_type nanMeshNode = Custom \<and> createMeshFromObject exampleEnv nanMeshNode = None \<and>
   executeBooleanOperation exampleEnv 0 tinyMeshNode (unitBox ''b'' ''Box 2'' (0, 0, 0)) UnionOp
     = ((None, Some ''Failed to create meshes from scene objects''), 0)"
  by (simp add: tinyMeshNode_def nanMeshNode_def createMeshFromObject_def validateGeometry_def
      executeBooleanOperation_def Let_def)

text \<open>
  C3, amended.  For a custom-mesh node the realizer of the boolean engine yields
  the unit box when \<open>geometryData\<close> is absent or its parse throws.  When the data
  parses, the parsed geometry is used if it passes validation; otherwise (no
  position buffer, fewer than 3 vertices, a non-finite coordinate) no mesh is
  returned, and a boolean operation with that node as either operand, whatever
  the other operand and the operation, fails with the message
  \<open>Failed to create meshes from scene objects\<close> and draws no identifier.
\<close>

theorem custom_mesh_realization:
  "obj_type obj = Custom \<Longrightarrow>
     map_option mesh_geometry (createMeshFromObject env obj) =
       (case geometryData obj of
          None \<Rightarrow> Some BoxGeometry
        | Some d \<Rightarrow> (case parse d of
                       None \<Rightarrow> Some BoxGeometry
                     | Some g \<Rightarrow> if validateGeometry g then Some g else None)) \<and>
     ((\<exists>d g. geometryData obj = Some d \<and> parse d = Some g \<and> \<not> validateGeometry g) \<longrightarrow>
        createMeshFromObject env obj = None \<and>
        executeBooleanOperation env n obj other op
          = ((None, Some ''Failed to create meshes from scene objects''), n) \<and>
        executeBooleanOperation env n other obj op
          = ((None, Some ''Failed to create meshes from scene objects''), n))"
proof (intro conjI impI)
  assume c: "obj_type obj = Custom"
  show "map_option mesh_geometry (createMeshFromObject env obj) =
       (case geometryData obj of
          None \<Rightarrow> Some BoxGeometry
        | Some d \<Rightarrow> (case parse d of
                       None \<Rightarrow> Some BoxGeometry
                     | Some g \<Rightarrow> if validateGeometry g then Some g else None))"
    using c by (simp add: createMeshFromObject_def validate_BoxGeometry Let_def split: option.splits)
  assume "\<exists>d g. geometryData obj = Some d \<and> parse d = Some g \<and> \<not> validateGeometry g"
  with c show m: "createMeshFromObject env obj = None"
    by (auto simp: createMeshFromObject_def Let_def)
  show "executeBooleanOperation env n obj other op
          = ((None, Some ''Failed to create meshes from scene objects''), n)"
    by (simp add: executeBooleanOperation_def m Let_def)
  show "executeBooleanOperation env n other obj op
          = ((None, Some ''Failed to create meshes from scene objects''), n)"
    by (simp add: executeBooleanOperation_def m Let_def)
qed

theorem custom_mesh_realization_witness:
  "obj_type malformedMeshNode = Custom \<and>
   map_option mesh_geometry (createMeshFromObject exampleEnv malformedMeshNode) = Some BoxGeometry \<and>
   obj_type nanMeshNode = Custom \<and>
   geometryData nanMeshNode = Some (GeometryJSON \<lparr> positionAttr =
        Some [(Fin 0, Fin 0, Fin 0), (Fin 1, Fin 0, Fin 0), (Fin 0, NaN, Fin 0)] \<rparr>) \<and>
   createMeshFromObject exampleEnv nanMeshNode = None \<and>
   executeBooleanOperation exampleEnv 5 nanMeshNode (unitBox ''b'' ''Box 2'' (0, 0, 0)) SubtractOp
     = ((None, Some ''Failed to create meshes from scene objects''), 5) \<and>
   executeBooleanOperation exampleEnv 5 (unitBox ''b'' ''Box 2'' (0, 0, 0)) nanMeshNode SubtractOp
     = ((None, Some ''Failed to create meshes from scene objects''), 5)"
proof -
  have a: "obj_type malformedMeshNode = Custom" by (simp add: malformedMeshNode_def)
  have b: "obj_type nanMeshNode = Custom" by (simp add: nanMeshNode_def)
  have g: "geometryData nanMeshNode = Some (GeometryJSON \<lparr> positionAttr =
        Some [(Fin 0, Fin 0, Fin 0), (Fin 1, Fin 0, Fin 0), (Fin 0, NaN, Fin 0)] \<rparr>)"
    by (simp add: nanMeshNode_def)
  have v: "\<not> validateGeometry \<lparr> positionAttr =
        Some [(Fin 0, Fin 0, Fin 0), (Fin 1, Fin 0, Fin 0), (Fin 0, NaN, Fin 0)] \<rparr>"
    by (simp add: validateGeometry_def)
  have h: "\<exists>d g. geometryData nanMeshNode = Some d \<and> parse d = Some g \<and> \<not> validateGeometry g"
    using g v by simp
  from custom_mesh_realization[OF a, of exampleEnv]
  have m: "map_option mesh_geometry (createMeshFromObject exampleEnv malformedMeshNode) = Some BoxGeometry"
    by (simp add: malformedMeshNode_def)
  from custom_mesh_realization[OF b, of exampleEnv 5 "unitBox ''b'' ''Box 2'' (0, 0, 0)" SubtractOp] h
  have "createMeshFromObject exampleEnv nanMeshNode = None \<and>
   executeBooleanOperation exampleEnv 5 nanMeshNode (unitBox ''b'' ''Box 2'' (0, 0, 0)) SubtractOp
     = ((None, Some ''Failed to create meshes from scene objects''), 5) \<and>
   executeBooleanOperation exampleEnv 5 (unitBox ''b'' ''Box 2'' (0, 0, 0)) nanMeshNode SubtractOp
     = ((None, Some ''Failed to create meshes from scene objects''), 5)"
    by blast
  with a b g m show ?thesis by simp
qed

section \<open>Failure of a combine\<close>

lemma validate_empty: "\<not> validateGeometry emptyGeometry" "\<not> validateGeometry \<lparr> positionAttr = Some [] \<rparr>"
  by (simp_all add: validateGeometry_def emptyGeometry_def)

lemma createMesh_unitBox:
  "createMeshFromObject env (unitBox i nm (0, 0, 0)) = Some unitBoxMesh"
  by (simp add: createMeshFromObject_def unitBox_def unitBoxMesh_def validate_BoxGeometry
      setFromEuler_def vadd_def scaleComponent_def)

text \<open>
  C4.  When both operand meshes are created and the combinator throws, returns no
  mesh, or returns a mesh whose geometry fails validation (no position buffer,
  fewer than 3 vertices, a non-finite coordinate), the engine returns no scene
  object but an error message, and draws no identifier.  The witness is the
  subtraction of a unit box from itself with a combinator that returns the empty
  mesh.
\<close>

theorem invalid_combinator_output_is_failure:
  assumes mA: "createMeshFromObject env objA = Some a"
    and mB: "createMeshFromObject env objB = Some b"
    and bad: "\<forall>m. csg env op a b = ResultMesh m \<longrightarrow> \<not> validateGeometry (mesh_geometry m)"
  shows "executeBooleanOperation env n objA objB op =
           ((None, Some (case csg env op a b of
                           Throws e \<Rightarrow> ''CSG operation failed: '' @ e
                         | NoResultMesh \<Rightarrow> ''CSG operation failed - no result mesh''
                         | ResultMesh m \<Rightarrow> ''Result geometry is invalid'')), n)"
proof -
  have va: "validateGeometry (mesh_geometry a)" and vb: "validateGeometry (mesh_geometry b)"
    using mA mB by (auto simp: createMeshFromObject_def Let_def split: if_splits)
  have "performOperation env (Some a) (Some b) op =
          invalidResult (case csg env op a b of
                           Throws e \<Rightarrow> ''CSG operation failed: '' @ e
                         | NoResultMesh \<Rightarrow> ''CSG operation failed - no result mesh''
                         | ResultMesh m \<Rightarrow> ''Result geometry is invalid'')"
    using bad va vb by (cases "csg env op a b") (simp_all add: performOperation_def)
  then show ?thesis using mA mB
    by (simp add: executeBooleanOperation_def invalidResult_def)
qed

theorem invalid_combinator_output_witness:
  "createMeshFromObject exampleEnv (unitBox ''a'' ''Box 1'' (0, 0, 0)) = Some unitBoxMesh \<and>
   csg exampleEnv SubtractOp unitBoxMesh unitBoxMesh
     = ResultMesh (unitBoxMesh\<lparr> mesh_geometry := \<lparr> positionAttr = Some [] \<rparr> \<rparr>) \<and>
   \<not> validateGeometry \<lparr> positionAttr = Some [] \<rparr> \<and>
   executeBooleanOperation exampleEnv 0 (unitBox ''a'' ''Box 1'' (0, 0, 0))
       (unitBox ''a'' ''Box 1'' (0, 0, 0)) SubtractOp
     = ((None, Some ''Result geometry is invalid''), 0)"
proof -
  have m: "createMeshFromObject exampleEnv (unitBox ''a'' ''Box 1'' (0, 0, 0)) = Some unitBoxMesh"
    by (rule createMesh_unitBox)
  have c: "csg exampleEnv SubtractOp unitBoxMesh unitBoxMesh
     = ResultMesh (unitBoxMesh\<lparr> mesh_geometry := \<lparr> positionAttr = Some [] \<rparr> \<rparr>)"
    by (simp add: exampleEnv_def exampleCsg_def)
  have bad: "\<forall>m. csg exampleEnv SubtractOp unitBoxMesh unitBoxMesh = ResultMesh m
               \<longrightarrow> \<not> validateGeometry (mesh_geometry m)"
    by (simp add: c validate_empty)
  show ?thesis
    using invalid_combinator_output_is_failure[OF m m bad, of 0] m c
    by (simp add: validate_empty)
qed

lemma execute_fails_iff:
  "fst (fst (executeBooleanOperation env n objA objB op)) = None \<longleftrightarrow>
     createMeshFromObject env objA = None \<or> createMeshFromObject env objB = None \<or>
     \<not> isValid (performOperation env (createMeshFromObject env objA)
                    (createMeshFromObject env objB) op)"
  by (auto simp: executeBooleanOperation_def createResultObject_def Let_def)

lemma isValid_performOperation:
  "isValid (performOperation env (Some a) (Some b) op) \<longleftrightarrow>
     validateGeometry (mesh_geometry a) \<and> validateGeometry (mesh_geometry b) \<and>
     (\<exists>m. csg env op a b = ResultMesh m \<and> validateGeometry (mesh_geometry m))"
  by (cases "csg env op a b") (auto simp: performOperation_def invalidResult_def Let_def)

text \<open>
  C5.  A failing boolean-combine command (selection not resolved to two objects,
  a group operand, or no result object from the engine) changes nothing of the
  state but the notification, which is an error: forest, past stack, future
  stack, selection and identifier counter are as before.
\<close>

theorem failed_boolean_leaves_graph_and_history:
  assumes "booleanCommandFails env op s"
  shows "\<exists>msg. performBooleanOperation env op s = s\<lparr> notification := Some (msg, Error) \<rparr>"
proof (cases "length (selectedIds s) \<noteq> 2")
  case True
  then show ?thesis by (auto simp: performBooleanOperation_def showNotification_def)
next
  case two: False
  show ?thesis
  proof (cases "findObjectRecursive (objects s) (selectedIds s ! 0)")
    case None
    with two show ?thesis by (auto simp: performBooleanOperation_def showNotification_def)
  next
    case (Some objA)
    note A = this
    show ?thesis
    proof (cases "findObjectRecursive (objects s) (selectedIds s ! 1)")
      case None
      with two A show ?thesis by (auto simp: performBooleanOperation_def showNotification_def)
    next
      case (Some objB)
      show ?thesis
      proof (cases "obj_type objA = Group \<or> obj_type objB = Group")
        case True
        with two A Some show ?thesis
          by (auto simp: performBooleanOperation_def showNotification_def)
      next
        case False
        with assms two A Some
        have "fst (fst (executeBooleanOperation env (nextId s) objA objB op)) = None"
          by (simp add: booleanCommandFails_def execute_fails_iff)
        then obtain err n' where "executeBooleanOperation env (nextId s) objA objB op = ((None, err), n')"
          by (metis fst_conv surj_pair)
        with two A Some False show ?thesis
          by (auto simp: performBooleanOperation_def showNotification_def)
      qed
    qed
  qed
qed

lemma find_twoBox:
  "findObjectRecursive (objects twoBoxState) ''a'' = Some (unitBox ''a'' ''Box 1'' (0, 0, 0))"
  "findObjectRecursive (objects twoBoxState) ''b'' = Some (unitBox ''b'' ''Box 2'' (0, 0, 0))"
  by (simp_all add: twoBoxState_def unitBox_def)

lemma unitBox_type: "obj_type (unitBox i nm p) = Box"
  by (simp add: unitBox_def)

lemma execute_subtract_example:
  "executeBooleanOperation exampleEnv n (unitBox i nm (0, 0, 0)) (unitBox j nm' (0, 0, 0)) SubtractOp
     = ((None, Some ''Result geometry is invalid''), n)"
  by (simp add: executeBooleanOperation_def createMesh_unitBox performOperation_def
      exampleEnv_def exampleCsg_def unitBoxMesh_def validate_BoxGeometry validate_empty invalidResult_def)

theorem failed_boolean_witness:
  "booleanCommandFails exampleEnv SubtractOp twoBoxState \<and>
   objects (performBooleanOperation exampleEnv SubtractOp twoBoxState) = objects twoBoxState \<and>
   past (performBooleanOperation exampleEnv SubtractOp twoBoxState) = past twoBoxState \<and>
   future (performBooleanOperation exampleEnv SubtractOp twoBoxState) = future twoBoxState \<and>
   notification (performBooleanOperation exampleEnv SubtractOp twoBoxState)
     = Some (''Boolean operation failed: Result geometry is invalid'', Error)"
proof -
  have sel: "selectedIds twoBoxState = [''a'', ''b'']" "nextId twoBoxState = 2"
    by (simp_all add: twoBoxState_def)
  have f: "booleanCommandFails exampleEnv SubtractOp twoBoxState"
    by (simp add: booleanCommandFails_def sel find_twoBox createMesh_unitBox isValid_performOperation
        exampleEnv_def exampleCsg_def validate_empty unitBox_type)
  have n: "notification (performBooleanOperation exampleEnv SubtractOp twoBoxState)
     = Some (''Boolean operation failed: Result geometry is invalid'', Error)"
    by (simp add: performBooleanOperation_def sel find_twoBox execute_subtract_example
        showNotification_def Let_def unitBox_type)
  obtain msg where "performBooleanOperation exampleEnv SubtractOp twoBoxState
      = twoBoxState\<lparr> notification := Some (msg, Error) \<rparr>"
    using failed_boolean_leaves_graph_and_history[OF f] by blast
  then show ?thesis using f n by simp
qed

text \<open>
  Conversely, a command that does not fail pushes one snapshot and replaces the
  two operands by the result object.
\<close>

lemma successful_boolean_edit:
  assumes "\<not> booleanCommandFails env op s"
  shows "\<exists>r. objects (performBooleanOperation env op s)
               = deleteObjectRecursive (objects s) [selectedIds s ! 0, selectedIds s ! 1] @ [r] \<and>
             past (performBooleanOperation env op s) = past s @ [objects s] \<and>
             future (performBooleanOperation env op s) = [] \<and>
             notification (performBooleanOperation env op s)
               = Some (''Boolean operation successful!'', Success)"
proof -
  from assms have two: "length (selectedIds s) = 2"
    by (simp add: booleanCommandFails_def split: if_splits)
  from assms two obtain objA objB where
    A: "findObjectRecursive (objects s) (selectedIds s ! 0) = Some objA" and
    B: "findObjectRecursive (objects s) (selectedIds s ! 1) = Some objB"
    by (auto simp: booleanCommandFails_def split: option.splits)
  from assms two A B have ng: "obj_type objA \<noteq> Group" "obj_type objB \<noteq> Group"
    and ok: "fst (fst (executeBooleanOperation env (nextId s) objA objB op)) \<noteq> None"
    by (simp_all add: booleanCommandFails_def execute_fails_iff)
  from ok obtain r err n' where
    "executeBooleanOperation env (nextId s) objA objB op = ((Some r, err), n')"
    by (metis fst_conv not_None_eq surj_pair)
  with two A B ng show ?thesis
    by (simp add: performBooleanOperation_def saveToHistory_def)
qed

section \<open>The synthesized result node\<close>

lemma createMesh_shiftedBox:
  "createMeshFromObject env (unitBox i nm (1/2, 0, 0)) = Some (unitBoxMesh\<lparr> mesh_position := (1/2, 0, 0) \<rparr>)"
  by (simp add: createMeshFromObject_def unitBox_def unitBoxMesh_def validate_BoxGeometry
      setFromEuler_def vadd_def scaleComponent_def)

lemma validate_unionGeometry: "validateGeometry unionGeometry"
  by (simp add: validateGeometry_def unionGeometry_def unionVertices_def fromVec3_def)

lemma box_unionGeometry:
  "computeBoundingBox unionGeometry
     = Some ((Fin (-1/2), Fin (-1/2), Fin (-1/2)), (Fin 1, Fin (1/2), Fin (1/2)))"
  by (simp add: computeBoundingBox_def unionGeometry_def unionVertices_def
      fromVec3_def setFromPoints_def)

lemma setFromObject_union:
  "setFromObject (unitBoxMesh\<lparr> mesh_geometry := unionGeometry \<rparr>)
     = Some ((Fin (-1/2), Fin (-1/2), Fin (-1/2)), (Fin 1, Fin (1/2), Fin (1/2)))"
  by (simp add: setFromObject_def box_unionGeometry matrixWorld_def unitBoxMesh_def compose_def
      applyMatrix4_def row_def setFromPoints_def Let_def)

lemma translate_zero_union: "translate unionGeometry (Fin 0, Fin 0, Fin 0) = unionGeometry"
  by (simp add: translate_def makeTranslation_def applyMatrix4_def row_def unionGeometry_def
      unionVertices_def fromVec3_def)

text \<open>
  The stored geometry is the result geometry moved by the chosen position minus
  the box center; with a finite stored scale, a stored vertex \<open>u\<close> is rendered at
  position plus scale times \<open>u\<close>.
\<close>

lemma createResultObject_fields:
  "position (fst (createResultObject env n r objA objB op)) =
     (case op of SubtractOp \<Rightarrow> position objA | _ \<Rightarrow> midpoint3 (position objA) (position objB))"
  "rotation (fst (createResultObject env n r objA objB op)) = (0, 0, 0)"
  "scale (fst (createResultObject env n r objA objB op)) =
     (case res_size r of (sx, sy, sz) \<Rightarrow> (absOrOne sx, absOrOne sy, absOrOne sz))"
  "pivot (fst (createResultObject env n r objA objB op)) = Some (0, 0, 0)"
  "geometryData (fst (createResultObject env n r objA objB op)) =
     Some (toJSON (translate (res_geometry r)
       (case res_position r of (cx, cy, cz) \<Rightarrow>
          case position (fst (createResultObject env n r objA objB op)) of (px, py, pz) \<Rightarrow>
            (nneg (nsub cx (Fin px)), nneg (nsub cy (Fin py)), nneg (nsub cz (Fin pz))))))"
  by (cases op; cases "res_position r"; cases "position objA"; cases "position objB";
      simp add: createResultObject_def Let_def midpoint3_def)+

lemma rendered_result_vertex:
  assumes "scale (fst (createResultObject env n r objA objB op)) = fromVec3 sc"
  shows "renderVertex (fst (createResultObject env n r objA objB op)) (fromVec3 u) =
     fromVec3 (vadd (position (fst (createResultObject env n r objA objB op))) (vscale sc u))"
  by (simp add: renderer_placement[OF assms] createResultObject_fields(2,4) rot_identity orElse_def)
     (cases u, simp add: vadd_def)

text \<open>
  C2.  The union of the unit box at the origin and the unit box at
  \<open>(1/2, 0, 0)\<close> spans \<open>[-1/2, 1]\<close> in \<open>x\<close>.  The engine stores that geometry
  unchanged (the offset between the box center and the chosen position is zero)
  in a node at \<open>(1/4, 0, 0)\<close> with scale \<open>(3/2, 1, 1)\<close>; rendered with its stored
  transform, the corner \<open>(1, 1/2, 1/2)\<close> of the result appears at
  \<open>(7/4, 1/2, 1/2)\<close>: the world-space result is not reproduced.
\<close>

theorem union_result_not_reproduced:
  "executeBooleanOperation exampleEnv 0 (unitBox ''a'' ''Box 1'' (0, 0, 0))
       (unitBox ''b'' ''Box 2'' (1/2, 0, 0)) UnionOp = ((Some unionNode, None), 1)
   \<and> geometryData unionNode = Some (toJSON unionGeometry)
   \<and> (1, 1/2, 1/2) \<in> set unionVertices
   \<and> renderVertex unionNode (fromVec3 (1, 1/2, 1/2)) = fromVec3 (7/4, 1/2, 1/2)"
proof -
  have p: "performOperation exampleEnv (Some unitBoxMesh)
             (Some (unitBoxMesh\<lparr> mesh_position := (1/2, 0, 0) \<rparr>)) UnionOp
           = \<lparr> res_geometry = unionGeometry, res_position = (Fin (1/4), Fin 0, Fin 0),
               res_size = (Fin (3/2), Fin 1, Fin 1), isValid = True, res_error = None \<rparr>"
    by (simp add: performOperation_def exampleEnv_def exampleCsg_def validate_unionGeometry
        setFromObject_union nsub_def)
       (simp add: unitBoxMesh_def validate_BoxGeometry)
  have c: "createResultObject exampleEnv 0
             \<lparr> res_geometry = unionGeometry, res_position = (Fin (1/4), Fin 0, Fin 0),
               res_size = (Fin (3/2), Fin 1, Fin 1), isValid = True, res_error = None \<rparr>
             (unitBox ''a'' ''Box 1'' (0, 0, 0)) (unitBox ''b'' ''Box 2'' (1/2, 0, 0)) UnionOp
           = (unionNode, 1)"
    by (simp add: createResultObject_def unitBox_def midpoint3_def nsub_def translate_zero_union
        absOrOne_def toJSON_def unionNode_def exampleEnv_def)
  have e: "executeBooleanOperation exampleEnv 0 (unitBox ''a'' ''Box 1'' (0, 0, 0))
       (unitBox ''b'' ''Box 2'' (1/2, 0, 0)) UnionOp = ((Some unionNode, None), 1)"
    by (simp add: executeBooleanOperation_def createMesh_unitBox createMesh_shiftedBox p c)
  have r: "renderVertex unionNode (Fin 1, Fin (1/2), Fin (1/2)) = (Fin (7/4), Fin (1/2), Fin (1/2))"
    by (simp add: renderVertex_def unionNode_def compose_def applyMatrix4_def row_def setFromEuler_def
        Let_def)
  show ?thesis using e r by (simp add: unionNode_def toJSON_def unionVertices_def fromVec3_def)
qed

section \<open>Identifier uniqueness\<close>

lemma allIds_append: "allIds (xs @ ys) = allIds xs @ allIds ys"
  by (induction xs) simp_all

lemma idsOf_unfold: "idsOf ob = obj_id ob # (case children ob of Some cs \<Rightarrow> allIds cs | None \<Rightarrow> [])"
  by (cases ob) simp

lemma distinct_of_subset_mset:
  assumes "mset ys \<subseteq># mset xs" and "distinct xs"
  shows "distinct ys"
proof -
  have le: "count (mset ys) a \<le> count (mset xs) a" for a
    by (rule mset_subset_eq_count[OF assms(1)])
  have "count (mset xs) a \<le> 1" for a
    using assms(2) by (simp add: distinct_count_atmost_1)
  then have c: "count (mset ys) a \<le> 1" for a
    using le[of a] by (meson le_trans)
  show ?thesis
    unfolding distinct_count_atmost_1
  proof (intro allI)
    fix a
    show "count (mset ys) a = (if a \<in> set ys then 1 else 0)"
    proof (cases "a \<in> set ys")
      case True
      then have "0 < count (mset ys) a" by simp
      with c[of a] True show ?thesis by (simp add: le_Suc_eq)
    next
      case False
      then show ?thesis by simp
    qed
  qed
qed

lemma set_of_subset_mset: "mset ys \<subseteq># mset xs \<Longrightarrow> set ys \<subseteq> set xs"
  using set_mset_mono by fastforce

subsection \<open>deepClone\<close>

lemma deepClone_ids:
  "idsOf (fst (deepClone env nn ob r n)) = map (generateId env) [n..<snd (deepClone env nn ob r n)]
     \<and> n < snd (deepClone env nn ob r n)"
  "allIds (fst (deepCloneChildren env nn cs n)) = map (generateId env) [n..<snd (deepCloneChildren env nn cs n)]
     \<and> n \<le> snd (deepCloneChildren env nn cs n)"
proof (induction env nn ob r n and env nn cs n rule: deepClone_deepCloneChildren.induct)
  case (1 env newName oi t p r s pv c nm ch gd bd isRoot n)
  show ?case
  proof (cases ch)
    case None
    then show ?thesis by simp
  next
    case (Some cs)
    obtain cs' k where d: "deepCloneChildren env newName cs (Suc n) = (cs', k)"
      by (cases "deepCloneChildren env newName cs (Suc n)")
    from 1[OF Some] d have ih: "allIds cs' = map (generateId env) [Suc n..<k]" "Suc n \<le> k"
      by simp_all
    from ih(2) have "[n..<k] = n # [Suc n..<k]" by (simp add: upt_conv_Cons)
    with Some d ih show ?thesis by simp
  qed
next
  case (2 env newName n)
  show ?case by simp
next
  case (3 env newName child rest n)
  obtain c' n1 where a: "deepClone env newName child False n = (c', n1)"
    by (cases "deepClone env newName child False n")
  obtain r' n2 where b: "deepCloneChildren env newName rest n1 = (r', n2)"
    by (cases "deepCloneChildren env newName rest n1")
  from 3(1) a have i1: "idsOf c' = map (generateId env) [n..<n1]" "n < n1" by simp_all
  from 3(2)[OF a[symmetric]] a b have i2: "allIds r' = map (generateId env) [n1..<n2]" "n1 \<le> n2"
    by simp_all
  have "[n..<n2] = [n..<n1] @ [n1..<n2]"
    using i1(2) i2(2) by (metis le_Suc_ex less_imp_le_nat upt_add_eq_append)
  with a b i1 i2 show ?case by simp
qed


subsection \<open>Sub-forests\<close>

lemma delete_ids_subset:
  "mset (allIds (deleteObjectRecursive os ids)) \<subseteq># mset (allIds os)"
  "mset (idsOf (deleteInChildren ob ids)) \<subseteq># mset (idsOf ob)"
proof (induction os ids and ob ids rule: deleteObjectRecursive_deleteInChildren.induct)
  case (1 ids)
  show ?case by simp
next
  case (2 obj rest ids)
  show ?case
  proof (cases "obj_id obj \<in> set ids")
    case True
    with 2(1) have "mset (allIds (deleteObjectRecursive rest ids)) \<subseteq># mset (allIds rest)" by simp
    then have "mset (allIds (deleteObjectRecursive rest ids)) \<subseteq># mset (idsOf obj) + mset (allIds rest)"
      by (simp add: subset_mset.add_increasing)
    with True show ?thesis by simp
  next
    case False
    with 2(2,3) show ?thesis by (simp add: subset_mset.add_mono)
  qed
next
  case (3 oi t p r s pv c nm ch gd bd ids)
  then show ?case by (cases ch) simp_all
qed

lemma filter_ids_partition:
  "mset (allIds (filter P os)) + mset (allIds (filter (\<lambda>x. \<not> P x) os)) = mset (allIds os)"
  by (induction os) simp_all

lemma filter_ids_subset: "mset (allIds (filter P os)) \<subseteq># mset (allIds os)"
  using filter_ids_partition[of P os] by (metis mset_subset_eq_add_left)

lemma member_ids_subset: "g \<in> set os \<Longrightarrow> mset (idsOf g) \<subseteq># mset (allIds os)"
proof (induction os)
  case Nil
  then show ?case by simp
next
  case (Cons a os)
  show ?case
  proof (cases "g = a")
    case True
    then show ?thesis by simp
  next
    case False
    with Cons have "mset (idsOf g) \<subseteq># mset (allIds os)" by simp
    then show ?thesis
      by (simp add: subset_mset.add_increasing)
  qed
qed

lemma idsOf_withPosition: "idsOf (withPosition ob p) = idsOf ob"
  by (cases ob) (simp add: withPosition_def)

lemma allIds_map_withPosition: "allIds (map (\<lambda>ob. withPosition ob (f ob)) os) = allIds os"
  by (induction os) (simp_all add: idsOf_withPosition)

lemma idsOf_ungroupChild: "idsOf (ungroupChild env g ob) = idsOf ob"
  by (cases ob) (simp add: ungroupChild_def split: prod.splits)

lemma allIds_map_ungroupChild: "allIds (map (ungroupChild env g) os) = allIds os"
  by (induction os) (simp_all add: idsOf_ungroupChild)


subsection \<open>Preservation\<close>

lemma ids_extend:
  assumes inj: "inj gen"
    and d: "distinct old" and sub: "set old \<subseteq> gen ` {..<n}"
    and le: "n \<le> n'"
    and m: "mset ids \<subseteq># mset old + mset (map gen [n..<n'])"
  shows "distinct ids \<and> set ids \<subseteq> gen ` {..<n'}"
proof -
  have dn: "distinct (map gen [n..<n'])"
    using inj by (simp add: distinct_map inj_on_def inj_def)
  have disj: "set old \<inter> set (map gen [n..<n']) = {}"
  proof (rule ccontr)
    assume "set old \<inter> set (map gen [n..<n']) \<noteq> {}"
    then obtain x where x: "x \<in> set old" "x \<in> set (map gen [n..<n'])" by blast
    from x(1) sub obtain i where i: "i < n" "x = gen i" by auto
    from x(2) obtain j where j: "n \<le> j" "x = gen j" by auto
    from i j inj have "i = j" by (simp add: inj_def)
    with i j show False by simp
  qed
  have dall: "distinct (old @ map gen [n..<n'])"
    using d dn disj by simp
  have m': "mset ids \<subseteq># mset (old @ map gen [n..<n'])" using m by simp
  have di: "distinct ids" by (rule distinct_of_subset_mset[OF m' dall])
  have "set ids \<subseteq> set (old @ map gen [n..<n'])" by (rule set_of_subset_mset[OF m'])
  moreover have "set old \<subseteq> gen ` {..<n'}"
    using sub le by (meson image_mono lessThan_subset_iff order_trans)
  moreover have "set (map gen [n..<n']) \<subseteq> gen ` {..<n'}"
    by auto
  ultimately have "set ids \<subseteq> gen ` {..<n'}"
    by (simp add: subset_iff) blast
  with di show ?thesis by simp
qed

lemma execute_result_ids:
  assumes "executeBooleanOperation env n a b op = ((Some r, e), n')"
  shows "idsOf r = [generateId env n] \<and> n' = Suc n"
  using assms
  by (auto simp: executeBooleanOperation_def createResultObject_def Let_def split: if_splits)

lemma find_Some_mem: "List.find P xs = Some x \<Longrightarrow> x \<in> set xs \<and> P x"
  by (induction xs) (auto split: if_splits)

lemma exec_ids:
  assumes "generatorOnly c"
  shows "nextId s \<le> nextId (exec env s c) \<and>
         mset (allIds (objects (exec env s c))) \<subseteq>#
           mset (allIds (objects s)) + mset (map (generateId env) [nextId s..<nextId (exec env s c)])"
proof (cases c)
  case (AddShape ty col)
  then show ?thesis
    by (simp add: handleAddShape_def saveToHistory_def Let_def allIds_append)
next
  case (UpdateObject i u)
  with assms show ?thesis by simp
next
  case (DeleteObject i)
  then show ?thesis
    by (simp add: handleDeleteObject_def saveToHistory_def delete_ids_subset)
next
  case (DuplicateObject i)
  show ?thesis
  proof (cases "findObjectRecursive (objects s) i")
    case None
    with DuplicateObject show ?thesis
      by (simp add: handleDuplicateObject_def saveToHistory_def)
  next
    case (Some original)
    define nn where "nn = uniqueName (getAllNames (objects s)) (rootName (name original))"
    obtain ob n' where dc: "deepClone env nn original True (nextId s) = (ob, n')"
      by (cases "deepClone env nn original True (nextId s)")
    from deepClone_ids(1)[of env nn original True "nextId s"] dc
    have ids: "idsOf ob = map (generateId env) [nextId s..<n']" "nextId s < n'" by simp_all
    from DuplicateObject Some dc ids show ?thesis
      by (simp add: handleDuplicateObject_def saveToHistory_def Let_def nn_def allIds_append)
  qed
next
  case (Select i m)
  then show ?thesis by (simp add: handleSelect_def split: option.splits)
next
  case GroupSelected
  let ?P = "\<lambda>obj. obj_id obj \<in> set (selectedIds s)"
  have part: "mset (allIds (filter (\<lambda>obj. obj_id obj \<notin> set (selectedIds s)) (objects s)))
        + mset (allIds (filter ?P (objects s))) = mset (allIds (objects s))"
    using filter_ids_partition[of ?P "objects s"] by (simp add: add.commute)
  show ?thesis
    using GroupSelected part
    by (simp add: handleGroup_def saveToHistory_def Let_def allIds_append allIds_map_withPosition
        add.assoc[symmetric])
next
  case UngroupSelected
  show ?thesis
  proof (cases "length (selectedIds s) \<noteq> 1")
    case True
    with UngroupSelected show ?thesis by (simp add: handleUngroup_def)
  next
    case False
    show ?thesis
    proof (cases "List.find (\<lambda>obj. obj_id obj = selectedIds s ! 0) (objects s)")
      case None
      with UngroupSelected False show ?thesis by (simp add: handleUngroup_def)
    next
      case (Some grp)
      show ?thesis
      proof (cases "obj_type grp \<noteq> Group \<or> children grp = None")
        case True
        with UngroupSelected False Some show ?thesis
          by (auto simp: handleUngroup_def split: option.splits)
      next
        case nongroup: False
        then obtain cs where cs: "children grp = Some cs" by auto
        let ?Q = "\<lambda>obj. obj_id obj \<noteq> obj_id grp"
        have gin: "grp \<in> set (filter (\<lambda>x. \<not> ?Q x) (objects s))"
          using find_Some_mem[OF Some] by simp
        have "mset (allIds cs) \<subseteq># mset (idsOf grp)"
          using cs by (simp add: idsOf_unfold)
        also have "\<dots> \<subseteq># mset (allIds (filter (\<lambda>x. \<not> ?Q x) (objects s)))"
          by (rule member_ids_subset[OF gin])
        finally have "mset (allIds (filter ?Q (objects s))) + mset (allIds cs) \<subseteq>#
              mset (allIds (filter ?Q (objects s))) + mset (allIds (filter (\<lambda>x. \<not> ?Q x) (objects s)))"
          by simp
        then have "mset (allIds (filter ?Q (objects s))) + mset (allIds cs) \<subseteq># mset (allIds (objects s))"
          by (simp only: filter_ids_partition)
        with UngroupSelected False Some nongroup cs show ?thesis
          by (simp add: handleUngroup_def saveToHistory_def Let_def allIds_append allIds_map_ungroupChild)
      qed
    qed
  qed
next
  case (BooleanOperation op)
  show ?thesis
  proof (cases "exec env s c = s\<lparr> notification := notification (exec env s c) \<rparr>")
    case True
    then have "objects (exec env s c) = objects s" "nextId (exec env s c) = nextId s"
      by (metis appState.select_convs(1) appState.surjective appState.update_convs(5),
          metis appState.select_convs(6) appState.surjective appState.update_convs(5))
    then show ?thesis by simp
  next
    case False
    then obtain objA objB r e n' where
      ex: "executeBooleanOperation env (nextId s) objA objB op = ((Some r, e), n')"
      and st: "exec env s c = (saveToHistory s)\<lparr>
                 objects := deleteObjectRecursive (objects s) [selectedIds s ! 0, selectedIds s ! 1] @ [r],
                 selectedIds := [obj_id r],
                 notification := Some (''Boolean operation successful!'', Success),
                 nextId := n' \<rparr>"
      using BooleanOperation
      by (auto simp: handleBooleanOperation_def performBooleanOperation_def showNotification_def
          Let_def split: if_splits option.splits prod.splits)
    from execute_result_ids[OF ex] have r: "idsOf r = [generateId env (nextId s)]" "n' = Suc (nextId s)"
      by simp_all
    show ?thesis
      by (simp add: st r allIds_append delete_ids_subset)
  qed
qed

lemma exec_uniqueIds:
  assumes "inj (generateId env)" and "generatorOnly c" and "uniqueIds env s"
  shows "uniqueIds env (exec env s c)"
  using ids_extend[OF assms(1), of "allIds (objects s)" "nextId s" "nextId (exec env s c)"
      "allIds (objects (exec env s c))"]
    exec_ids[OF assms(2), of s env] assms(3)
  by (simp add: uniqueIds_def)

lemma run_uniqueIds:
  assumes "inj (generateId env)" and "list_all generatorOnly cmds" and "uniqueIds env s"
  shows "uniqueIds env (run env s cmds)"
  using assms(2,3) unfolding run_def
  by (induction cmds arbitrary: s) (simp_all add: exec_uniqueIds[OF assms(1)])

text \<open>
  C7.  If the generator never returns an identifier twice, then after any
  sequence of add, delete, duplicate, select, group, ungroup and boolean-combine
  commands on the empty scene all identifiers of the forest, at every depth, are
  pairwise distinct.  A clone made by \<open>deepClone\<close> carries, at all depths, exactly
  the identifiers drawn during the cloning, so each copied node has a fresh one.
\<close>

theorem identifiers_pairwise_distinct:
  assumes "inj (generateId env)" and "list_all generatorOnly cmds"
  shows "distinct (allIds (objects (run env (initialState [] 0) cmds)))
         \<and> idsOf (fst (deepClone env newName ob isRoot n))
             = map (generateId env) [n..<snd (deepClone env newName ob isRoot n)]"
proof -
  have "uniqueIds env (initialState [] 0)"
    by (simp add: uniqueIds_def initialState_def)
  from run_uniqueIds[OF assms this] show ?thesis
    by (simp add: uniqueIds_def deepClone_ids)
qed

lemma uniqueNameLoop_free: "nm \<notin> set ex \<Longrightarrow> uniqueNameLoop ex base c nm = nm"
  by (subst uniqueNameLoop.simps) simp

lemma uniqueNameLoop_taken:
  "nm \<in> set ex \<Longrightarrow> uniqueNameLoop ex base c nm = uniqueNameLoop ex base (Suc c) (copyName base (Suc c))"
  by (subst uniqueNameLoop.simps) simp

lemma inj_exampleEnv: "inj (generateId exampleEnv)"
  by (simp add: exampleEnv_def inj_def)

lemma decimal_small: "n < 10 \<Longrightarrow> decimal n = [''0123456789'' ! n]"
  by (subst decimal.simps) simp

lemma run_groupThenDuplicate:
  "allIds (objects (run exampleEnv (initialState [] 0) groupThenDuplicate))
     = [''iii'', ''i'', ''ii'', ''iiii'', ''iiiii'', ''iiiiii'']"
  by (simp add: run_def groupThenDuplicate_def initialState_def handleAddShape_def saveToHistory_def
      handleSelect_def handleGroup_def handleDuplicateObject_def exampleEnv_def Let_def
      withPosition_def centerOf_def vadd_def vsub_def decimal_small rootName_def copySuffix_def
      uniqueName_def uniqueNameLoop_free isWhitespace_def isLineTerminator_def orElse_def
      numeral_eq_Suc)

theorem identifiers_witness:
  "inj (generateId exampleEnv) \<and> list_all generatorOnly groupThenDuplicate \<and>
   allIds (objects (run exampleEnv (initialState [] 0) groupThenDuplicate))
     = [''iii'', ''i'', ''ii'', ''iiii'', ''iiiii'', ''iiiiii''] \<and>
   distinct (allIds (objects (run exampleEnv (initialState [] 0) groupThenDuplicate)))"
proof -
  have g: "list_all generatorOnly groupThenDuplicate"
    by (simp add: groupThenDuplicate_def)
  show ?thesis
    using identifiers_pairwise_distinct[OF inj_exampleEnv g] inj_exampleEnv g run_groupThenDuplicate
    by simp
qed

section \<open>Names of duplicates\<close>

lemma digit_nth: "k < 10 \<Longrightarrow> isDigit (''0123456789'' ! k)"
proof -
  assume "k < 10"
  then have "k \<in> {0, 1, 2, 3, 4, 5, 6, 7, 8, 9}" by auto
  then show ?thesis by (auto simp: isDigit_def)
qed

lemma decimal_digits: "decimal n \<noteq> [] \<and> list_all isDigit (decimal n)"
proof (induction n rule: decimal.induct)
  case (1 n)
  show ?case
  proof (cases "n < 10")
    case True
    then show ?thesis by (subst (1 2) decimal.simps) (simp add: digit_nth)
  next
    case False
    with 1 show ?thesis by (subst (1 2) decimal.simps) (simp add: digit_nth)
  qed
qed

lemma whitespace_not_digit: "isWhitespace c \<Longrightarrow> \<not> isDigit c"
  by (auto simp: isWhitespace_def isDigit_def)

lemma digit_not_y: "isDigit c \<Longrightarrow> c \<noteq> CHR ''y''"
  by (auto simp: isDigit_def)

lemma copySuffix_iff:
  "copySuffix s \<longleftrightarrow>
     (\<exists>w. isWhitespace w \<and> s = w # ''(Copy)'') \<or>
     (\<exists>w w2 ds. isWhitespace w \<and> isWhitespace w2 \<and> ds \<noteq> [] \<and> list_all isDigit ds \<and>
        s = w # ''(Copy'' @ w2 # ds @ '')'')"
  (is "?L \<longleftrightarrow> ?A \<or> ?B")
proof
  assume ?L
  then obtain w rest where s: "s = w # rest" and w: "isWhitespace w"
    and r: "rest = ''(Copy)'' \<or> (take 5 rest = ''(Copy'' \<and>
            (case drop 5 rest of [] \<Rightarrow> False
             | w2 # t \<Rightarrow> isWhitespace w2 \<and> t \<noteq> [] \<and> last t = CHR '')'' \<and>
                         butlast t \<noteq> [] \<and> list_all isDigit (butlast t)))"
    by (auto simp: copySuffix_def split: list.splits)
  from r show "?A \<or> ?B"
  proof
    assume "rest = ''(Copy)''"
    with s w show ?thesis by blast
  next
    assume a: "take 5 rest = ''(Copy'' \<and>
            (case drop 5 rest of [] \<Rightarrow> False
             | w2 # t \<Rightarrow> isWhitespace w2 \<and> t \<noteq> [] \<and> last t = CHR '')'' \<and>
                         butlast t \<noteq> [] \<and> list_all isDigit (butlast t))"
    then obtain w2 t where d: "drop 5 rest = w2 # t" and w2: "isWhitespace w2" and t: "t \<noteq> []"
      "last t = CHR '')''" "butlast t \<noteq> []" "list_all isDigit (butlast t)"
      by (auto split: list.splits)
    have bl: "butlast t @ [last t] = t" using t(1) by (rule append_butlast_last_id)
    have "rest = take 5 rest @ drop 5 rest" by simp
    also have "\<dots> = ''(Copy'' @ w2 # butlast t @ [last t]" using a d bl by simp
    finally have "s = w # ''(Copy'' @ w2 # butlast t @ '')''" using s t(2) by simp
    with w w2 t show ?thesis by blast
  qed
next
  assume "?A \<or> ?B"
  then show ?L
  proof
    assume ?A
    then show ?L by (auto simp: copySuffix_def)
  next
    assume ?B
    then obtain w w2 ds where "isWhitespace w" "isWhitespace w2" "ds \<noteq> []" "list_all isDigit ds"
      "s = w # ''(Copy'' @ w2 # ds @ '')''" by blast
    then show ?L by (simp add: copySuffix_def butlast_append)
  qed
qed

lemma copySuffix_length:
  assumes "copySuffix s"
  shows "copySuffixLength (rev s @ r) = length s"
proof -
  from assms[unfolded copySuffix_iff] show ?thesis
  proof
    assume "\<exists>w. isWhitespace w \<and> s = w # ''(Copy)''"
    then show ?thesis by (auto simp: copySuffixLength_def)
  next
    assume "\<exists>w w2 ds. isWhitespace w \<and> isWhitespace w2 \<and> ds \<noteq> [] \<and> list_all isDigit ds \<and>
        s = w # ''(Copy'' @ w2 # ds @ '')''"
    then obtain w w2 ds where w: "isWhitespace w2" and ds: "ds \<noteq> []" "list_all isDigit ds"
      and s: "s = w # ''(Copy'' @ w2 # ds @ '')''" by blast
    have rs: "rev s @ r = CHR '')'' # rev ds @ w2 # (''ypoC('' @ w # r)"
      by (simp add: s)
    obtain d ds' where rd: "rev ds = d # ds'" using ds(1) by (cases "rev ds") auto
    have "isDigit d" using ds(2) rd by (metis list.set_intros(1) list_all_iff set_rev)
    then have ny: "take 2 (rev s @ r) \<noteq> '')y''" using rs rd digit_not_y by auto
    have "takeWhile isDigit (rev ds @ w2 # (''ypoC('' @ w # r)) = rev ds"
      using ds(2) whitespace_not_digit[OF w]
      by (simp add: takeWhile_append list_all_iff)
    then have "takeWhile isDigit (tl (rev s @ r)) = rev ds"
      by (simp add: rs)
    with ny show ?thesis
      by (simp add: copySuffixLength_def) (simp add: s)
  qed
qed

lemma copySuffix_unique:
  assumes "copySuffix s" and "copySuffix (q @ s)"
  shows "q = []"
proof -
  have "copySuffixLength (rev s @ rev q) = length s"
    by (rule copySuffix_length[OF assms(1)])
  moreover have "copySuffixLength (rev (q @ s) @ []) = length (q @ s)"
    by (rule copySuffix_length[OF assms(2)])
  ultimately show ?thesis by simp
qed

lemma matchRoot_strip:
  assumes "copySuffix s" and "singleLine pre"
  shows "matchRoot acc (pre @ s) = Some (acc @ pre)"
  using assms(2)
proof (induction pre arbitrary: acc)
  case Nil
  from assms(1) show ?case by (cases s) (simp_all add: copySuffix_def)
next
  case (Cons p ps)
  have "\<not> copySuffix ((p # ps) @ s)"
    using copySuffix_unique[OF assms(1), of "p # ps"] by auto
  moreover from Cons.prems have "\<not> isLineTerminator p" "singleLine ps"
    by (simp_all add: singleLine_def)
  ultimately show ?case using Cons.IH[of "acc @ [p]"] by simp
qed

lemma rootName_strip:
  "copySuffix s \<Longrightarrow> singleLine base \<Longrightarrow> rootName (base @ s) = base"
  by (simp add: rootName_def matchRoot_strip[where acc = "[]", simplified])

lemma copySuffix_plain: "copySuffix '' (Copy)''"
  by (simp add: copySuffix_def isWhitespace_def)

lemma copySuffix_numbered: "copySuffix ('' (Copy '' @ decimal n @ '')'')"
  unfolding copySuffix_iff using decimal_digits[of n]
  by (intro disjI2 exI[of _ "CHR '' ''"] exI[of _ "decimal n"]) (simp add: isWhitespace_def)

lemma uniqueNameLoop_spec:
  "uniqueNameLoop ex base c nm \<notin> set ex \<and>
   (if nm \<notin> set ex then uniqueNameLoop ex base c nm = nm
    else \<exists>N>c. uniqueNameLoop ex base c nm = copyName base N \<and>
                (\<forall>k. c < k \<and> k < N \<longrightarrow> copyName base k \<in> set ex))"
proof (induction ex base c nm rule: uniqueNameLoop.induct)
  case (1 ex base c nm)
  show ?case
  proof (cases "nm \<in> set ex")
    case False
    then show ?thesis by (subst (1 2) uniqueNameLoop.simps) simp
  next
    case True
    note ih = 1[OF True]
    have step: "uniqueNameLoop ex base c nm = uniqueNameLoop ex base (Suc c) (copyName base (Suc c))"
      using True by (subst uniqueNameLoop.simps) simp
    show ?thesis
    proof (cases "copyName base (Suc c) \<in> set ex")
      case False
      with ih have "uniqueNameLoop ex base (Suc c) (copyName base (Suc c)) = copyName base (Suc c)"
        by simp
      with ih True step show ?thesis
        by (auto intro!: exI[of _ "Suc c"])
    next
      case inex: True
      with ih obtain N where N: "N > Suc c"
        "uniqueNameLoop ex base (Suc c) (copyName base (Suc c)) = copyName base N"
        "\<forall>k. Suc c < k \<and> k < N \<longrightarrow> copyName base k \<in> set ex"
        by auto
      have "\<forall>k. c < k \<and> k < N \<longrightarrow> copyName base k \<in> set ex"
      proof (intro allI impI)
        fix k assume "c < k \<and> k < N"
        then have "k = Suc c \<or> (Suc c < k \<and> k < N)" by auto
        with inex N(3) show "copyName base k \<in> set ex" by auto
      qed
      with ih True step N show ?thesis
        by (auto intro!: exI[of _ N])
    qed
  qed
qed

lemma deepClone_name:
  "name (fst (deepClone env newName ob True n)) = newName"
  by (cases ob) (simp split: option.splits prod.splits)

lemma duplicate_found:
  assumes "findObjectRecursive (objects s) i = Some original"
  shows "\<exists>ob. objects (handleDuplicateObject env i s) = objects s @ [ob] \<and>
              name ob = uniqueName (getAllNames (objects s)) (rootName (name original))"
proof -
  define nn where "nn = uniqueName (getAllNames (objects s)) (rootName (name original))"
  obtain ob n' where dc: "deepClone env nn original True (nextId s) = (ob, n')"
    by (cases "deepClone env nn original True (nextId s)")
  have "name ob = nn" using deepClone_name[of env nn original "nextId s"] dc by simp
  with assms dc show ?thesis
    by (simp add: handleDuplicateObject_def saveToHistory_def Let_def nn_def[symmetric])
qed

lemma uniqueName_spec:
  "uniqueName ex base \<notin> set ex \<and>
   (if base @ '' (Copy)'' \<notin> set ex then uniqueName ex base = base @ '' (Copy)''
    else \<exists>N\<ge>2. uniqueName ex base = copyName base N \<and>
                (\<forall>k. 2 \<le> k \<and> k < N \<longrightarrow> copyName base k \<in> set ex))"
proof -
  note sp = uniqueNameLoop_spec[of ex base 1 "base @ '' (Copy)''"]
  show ?thesis
  proof (cases "base @ '' (Copy)'' \<in> set ex")
    case False
    with sp show ?thesis by (simp add: uniqueName_def)
  next
    case True
    with sp obtain N where N: "N > 1" "uniqueNameLoop ex base 1 (base @ '' (Copy)'') = copyName base N"
      "\<forall>k. 1 < k \<and> k < N \<longrightarrow> copyName base k \<in> set ex"
      by auto
    have "2 \<le> N" using N(1) by simp
    moreover have "\<forall>k. 2 \<le> k \<and> k < N \<longrightarrow> copyName base k \<in> set ex"
      using N(3) by auto
    ultimately show ?thesis using sp True N(2)
      by (auto simp: uniqueName_def)
  qed
qed

lemma rootName_strip_plain: "singleLine b \<Longrightarrow> rootName (b @ '' (Copy)'') = b"
  by (rule rootName_strip[OF copySuffix_plain])

lemma rootName_strip_numbered: "singleLine b \<Longrightarrow> rootName (copyName b n) = b"
  unfolding copyName_def by (rule rootName_strip[OF copySuffix_numbered])

lemma rootName_plain: "rootName ''Box 1'' = ''Box 1''"
  by (simp add: rootName_def copySuffix_def isLineTerminator_def)

lemma duplicate_box_once:
  "handleDuplicateObject env ''a'' boxScene =
     \<lparr> objects = [unitBox ''a'' ''Box 1'' (0, 0, 0),
                   SceneObject (generateId env 1) Box (5, 0, 5) (0, 0, 0) (Fin 1, Fin 1, Fin 1) (Some (0, 0, 0))
                     ''#808080'' ''Box 1 (Copy)'' None None None],
       past = [[unitBox ''a'' ''Box 1'' (0, 0, 0)]], future = [],
       selectedIds = [generateId env 1], notification = None, nextId = 2 \<rparr>"
  by (simp add: handleDuplicateObject_def boxScene_def initialState_def unitBox_def saveToHistory_def
      rootName_plain uniqueName_def uniqueNameLoop_free orElse_def Let_def)

lemma duplicate_box_twice:
  "lastName (handleDuplicateObject env ''a'' boxScene) = ''Box 1 (Copy)'' \<and>
   lastName (handleDuplicateObject env ''a'' (handleDuplicateObject env ''a'' boxScene)) = ''Box 1 (Copy 2)''"
proof -
  have "lastName (handleDuplicateObject env ''a'' boxScene) = ''Box 1 (Copy)''"
    by (simp add: duplicate_box_once lastName_def)
  moreover have "lastName (handleDuplicateObject env ''a'' (handleDuplicateObject env ''a'' boxScene))
      = ''Box 1 (Copy 2)''"
    unfolding duplicate_box_once
    by (simp add: handleDuplicateObject_def unitBox_def saveToHistory_def lastName_def
      rootName_plain uniqueName_def uniqueNameLoop_free uniqueNameLoop_taken copyName_def
      decimal_small orElse_def Let_def)
  ultimately show ?thesis by simp
qed

lemma matchRoot_Some:
  "matchRoot acc s = Some r \<Longrightarrow> \<exists>p sfx. s = p @ sfx \<and> copySuffix sfx \<and> r = acc @ p"
proof (induction s arbitrary: acc)
  case Nil
  then show ?case by (simp add: copySuffix_def)
next
  case (Cons c cs)
  show ?case
  proof (cases "copySuffix (c # cs)")
    case True
    with Cons.prems show ?thesis by (intro exI[of _ "[]"] exI[of _ "c # cs"]) simp
  next
    case False
    with Cons.prems have "matchRoot (acc @ [c]) cs = Some r"
      by (simp split: if_splits)
    from Cons.IH[OF this] obtain p sfx where "cs = p @ sfx" "copySuffix sfx" "r = (acc @ [c]) @ p"
      by blast
    then show ?thesis by (intro exI[of _ "c # p"] exI[of _ sfx]) simp
  qed
qed

lemma rootName_no_suffix:
  assumes "\<forall>p w. isWhitespace w \<longrightarrow> nm \<noteq> p @ w # ''(Copy)''"
    and "\<forall>p w w2 ds. isWhitespace w \<and> isWhitespace w2 \<and> ds \<noteq> [] \<and> list_all isDigit ds
           \<longrightarrow> nm \<noteq> p @ w # ''(Copy'' @ w2 # ds @ '')''"
  shows "rootName nm = nm"
proof (cases "matchRoot [] nm")
  case None
  then show ?thesis by (simp add: rootName_def)
next
  case (Some r)
  from matchRoot_Some[OF Some] obtain p sfx where nm: "nm = p @ sfx" and c: "copySuffix sfx" by blast
  from c[unfolded copySuffix_iff] assms nm show ?thesis by blast
qed

lemma rootName_strip_general:
  assumes "singleLine b" and "isWhitespace w"
  shows "rootName (b @ w # ''(Copy)'') = b"
    and "isWhitespace w2 \<Longrightarrow> ds \<noteq> [] \<Longrightarrow> list_all isDigit ds \<Longrightarrow>
           rootName (b @ w # ''(Copy'' @ w2 # ds @ '')'') = b"
proof -
  have "copySuffix (w # ''(Copy)'')" using assms(2) unfolding copySuffix_iff by blast
  from rootName_strip[OF this assms(1)] show "rootName (b @ w # ''(Copy)'') = b" .
  assume "isWhitespace w2" "ds \<noteq> []" "list_all isDigit ds"
  with assms(2) have "copySuffix (w # ''(Copy'' @ w2 # ds @ '')'')" unfolding copySuffix_iff by blast
  from rootName_strip[OF this assms(1)] show "rootName (b @ w # ''(Copy'' @ w2 # ds @ '')'') = b" .
qed

text \<open>
  The expression's \<^verbatim>\<open>.\<close> does not match a line terminator: a name with a line break
  before its suffix is not matched, and the suffix stays.
\<close>

lemma line_break_before_suffix:
  "rootName twoLineName = twoLineName"
  by (simp add: rootName_def twoLineName_def copySuffix_def isLineTerminator_def)

text \<open>
  The claim C8 as stated fails: not every \<open>(Copy...)\<close> suffix is stripped.  A suffix
  such as \<open>(Copy new)\<close>, or \<open>(Copy)\<close> with no white space before it, stays, and the
  duplicate gets a second suffix.
\<close>

theorem copy_suffix_not_stripped_counterexample:
  "rootName ''Box (Copy new)'' = ''Box (Copy new)'' \<and>
   lastName (handleDuplicateObject exampleEnv ''a'' (initialState [unitBox ''a'' ''Box (Copy new)'' (0, 0, 0)] 1))
     = ''Box (Copy new) (Copy)'' \<and>
   rootName ''Box(Copy)'' = ''Box(Copy)'' \<and>
   lastName (handleDuplicateObject exampleEnv ''a'' (initialState [unitBox ''a'' ''Box(Copy)'' (0, 0, 0)] 1))
     = ''Box(Copy) (Copy)''"
proof -
  have a: "rootName ''Box(Copy)'' = ''Box(Copy)''"
    by (simp add: rootName_def copySuffix_def isLineTerminator_def isWhitespace_def isDigit_def)
  have b: "rootName ''Box (Copy new)'' = ''Box (Copy new)''"
    by (simp add: rootName_def copySuffix_def isLineTerminator_def isWhitespace_def isDigit_def)
  have c: "lastName (handleDuplicateObject exampleEnv ''a'' (initialState [unitBox ''a'' nm (0, 0, 0)] 1))
     = rootName nm @ '' (Copy)''" if "rootName nm @ '' (Copy)'' \<noteq> nm" for nm
    using that
    by (simp add: handleDuplicateObject_def initialState_def unitBox_def saveToHistory_def
      uniqueName_def uniqueNameLoop_free orElse_def Let_def lastName_def)
  show ?thesis using a b c[of "''Box(Copy)''"] c[of "''Box (Copy new)''"] by simp
qed

text \<open>
  C8, amended.  Duplicating the node named \<open>Box 1\<close> twice gives the names
  \<open>Box 1 (Copy)\<close> and \<open>Box 1 (Copy 2)\<close>.  In general the copy is appended to the
  root list under a name that no node of the forest has: with \<open>base\<close> the source
  name after stripping, it is \<open>base (Copy)\<close> if that is free and otherwise
  \<open>base (Copy N)\<close> for the smallest \<open>N \<ge> 2\<close> that is free.  For a name without line
  breaks, stripping removes a final suffix made of one white-space character and
  \<open>(Copy)\<close>, or of one white-space character, \<open>(Copy\<close>, one white-space character,
  one or more digits and \<open>)\<close>: in particular the names that duplication itself
  appends.  A name that does not end in a suffix of one of these two forms is
  kept whole.
\<close>

theorem duplicate_naming:
  "lastName (handleDuplicateObject env ''a'' boxScene) = ''Box 1 (Copy)'' \<and>
   lastName (handleDuplicateObject env ''a'' (handleDuplicateObject env ''a'' boxScene)) = ''Box 1 (Copy 2)'' \<and>
   (findObjectRecursive (objects s) i = Some original \<longrightarrow>
      (\<exists>ob. objects (handleDuplicateObject env i s) = objects s @ [ob] \<and>
            name ob \<notin> set (getAllNames (objects s)) \<and>
            (if rootName (name original) @ '' (Copy)'' \<notin> set (getAllNames (objects s))
             then name ob = rootName (name original) @ '' (Copy)''
             else \<exists>N\<ge>2. name ob = copyName (rootName (name original)) N \<and>
                    (\<forall>k. 2 \<le> k \<and> k < N \<longrightarrow>
                       copyName (rootName (name original)) k \<in> set (getAllNames (objects s)))))) \<and>
   (singleLine b \<and> isWhitespace w \<longrightarrow> rootName (b @ w # ''(Copy)'') = b) \<and>
   (singleLine b \<and> isWhitespace w \<and> isWhitespace w2 \<and> ds \<noteq> [] \<and> list_all isDigit ds \<longrightarrow>
      rootName (b @ w # ''(Copy'' @ w2 # ds @ '')'') = b) \<and>
   (singleLine b \<longrightarrow> rootName (b @ '' (Copy)'') = b \<and> rootName (copyName b n) = b) \<and>
   ((\<forall>p w. isWhitespace w \<longrightarrow> nm \<noteq> p @ w # ''(Copy)'') \<and>
    (\<forall>p w w2 ds. isWhitespace w \<and> isWhitespace w2 \<and> ds \<noteq> [] \<and> list_all isDigit ds
        \<longrightarrow> nm \<noteq> p @ w # ''(Copy'' @ w2 # ds @ '')'')
    \<longrightarrow> rootName nm = nm)"
proof (intro conjI impI)
  assume f: "findObjectRecursive (objects s) i = Some original"
  from duplicate_found[OF f, of env] obtain ob where
    ob: "objects (handleDuplicateObject env i s) = objects s @ [ob]"
    "name ob = uniqueName (getAllNames (objects s)) (rootName (name original))" by blast
  show "\<exists>ob. objects (handleDuplicateObject env i s) = objects s @ [ob] \<and>
            name ob \<notin> set (getAllNames (objects s)) \<and>
            (if rootName (name original) @ '' (Copy)'' \<notin> set (getAllNames (objects s))
             then name ob = rootName (name original) @ '' (Copy)''
             else \<exists>N\<ge>2. name ob = copyName (rootName (name original)) N \<and>
                    (\<forall>k. 2 \<le> k \<and> k < N \<longrightarrow>
                       copyName (rootName (name original)) k \<in> set (getAllNames (objects s))))"
    using ob uniqueName_spec[of "getAllNames (objects s)" "rootName (name original)"]
    by (intro exI[of _ ob]) simp
next
  show "lastName (handleDuplicateObject env ''a'' boxScene) = ''Box 1 (Copy)''"
    using duplicate_box_twice by simp
next
  show "lastName (handleDuplicateObject env ''a'' (handleDuplicateObject env ''a'' boxScene))
      = ''Box 1 (Copy 2)''"
    using duplicate_box_twice by simp
next
  assume "singleLine b \<and> isWhitespace w"
  then show "rootName (b @ w # ''(Copy)'') = b" by (simp add: rootName_strip_general(1))
next
  assume "singleLine b \<and> isWhitespace w \<and> isWhitespace w2 \<and> ds \<noteq> [] \<and> list_all isDigit ds"
  then show "rootName (b @ w # ''(Copy'' @ w2 # ds @ '')'') = b"
    using rootName_strip_general(2)[of b w w2 ds] by blast
next
  assume "singleLine b"
  then show "rootName (b @ '' (Copy)'') = b" by (rule rootName_strip_plain)
next
  assume "singleLine b"
  then show "rootName (copyName b n) = b" by (rule rootName_strip_numbered)
next
  assume "(\<forall>p w. isWhitespace w \<longrightarrow> nm \<noteq> p @ w # ''(Copy)'') \<and>
    (\<forall>p w w2 ds. isWhitespace w \<and> isWhitespace w2 \<and> ds \<noteq> [] \<and> list_all isDigit ds
        \<longrightarrow> nm \<noteq> p @ w # ''(Copy'' @ w2 # ds @ '')'')"
  then show "rootName nm = nm" using rootName_no_suffix[of nm] by blast
qed

lemma no_suffix_Copy_new:
  "\<forall>p w. isWhitespace w \<longrightarrow> ''Box (Copy new)'' \<noteq> p @ w # ''(Copy)''"
  "\<forall>p w w2 ds. isWhitespace w \<and> isWhitespace w2 \<and> ds \<noteq> [] \<and> list_all isDigit ds
        \<longrightarrow> ''Box (Copy new)'' \<noteq> p @ w # ''(Copy'' @ w2 # ds @ '')''"
proof -
  show "\<forall>p w. isWhitespace w \<longrightarrow> ''Box (Copy new)'' \<noteq> p @ w # ''(Copy)''"
  proof (intro allI impI notI)
    fix p w assume "''Box (Copy new)'' = p @ w # ''(Copy)''"
    then have "rev ''Box (Copy new)'' = rev (p @ w # ''(Copy)'')" by (rule arg_cong)
    then show False by simp
  qed
  show "\<forall>p w w2 ds. isWhitespace w \<and> isWhitespace w2 \<and> ds \<noteq> [] \<and> list_all isDigit ds
        \<longrightarrow> ''Box (Copy new)'' \<noteq> p @ w # ''(Copy'' @ w2 # ds @ '')''"
  proof (intro allI impI notI)
    fix p w w2 ds
    assume h: "isWhitespace w \<and> isWhitespace w2 \<and> ds \<noteq> [] \<and> list_all isDigit ds"
      and e: "''Box (Copy new)'' = p @ w # ''(Copy'' @ w2 # ds @ '')''"
    from h obtain d ds' where ds: "ds = ds' @ [d]" and d: "isDigit d"
      by (cases ds rule: rev_cases) auto
    from e have "rev ''Box (Copy new)'' = rev (p @ w # ''(Copy'' @ w2 # ds @ '')'')" by (rule arg_cong)
    with ds have "d = CHR ''w''" by simp
    with d show False by (simp add: isDigit_def)
  qed
qed

theorem duplicate_naming_witness:
  "findObjectRecursive (objects copiedScene) ''ii'' = Some copiedBox \<and>
   rootName (name copiedBox) = ''Box 1'' \<and>
   rootName (copyName ''Box 1'' 7) = ''Box 1'' \<and>
   rootName (''Box 1'' @ CHR 0x09 # ''(Copy)'') = ''Box 1'' \<and>
   rootName (''Box 1'' @ CHR 0xA0 # ''(Copy'' @ CHR 0x09 # ''007'' @ '')'') = ''Box 1'' \<and>
   rootName ''Box (Copy new)'' = ''Box (Copy new)'' \<and>
   getAllNames (objects copiedScene) = [''Box 1'', ''Box 1 (Copy)''] \<and>
   lastName (handleDuplicateObject exampleEnv ''ii'' copiedScene) = ''Box 1 (Copy 2)''"
proof -
  have f: "findObjectRecursive (objects copiedScene) ''ii'' = Some copiedBox"
    by (simp add: copiedScene_def copiedBox_def unitBox_def)
  have sl: "singleLine ''Box 1''"
    by (simp add: singleLine_def isLineTerminator_def)
  have ws: "isWhitespace (CHR 0x09)" "isWhitespace (CHR 0xA0)"
    by (simp_all add: isWhitespace_def)
  have dg: "''007'' \<noteq> []" "list_all isDigit ''007''"
    by (simp_all add: isDigit_def)
  have nms: "getAllNames (objects copiedScene) = [''Box 1'', ''Box 1 (Copy)'']"
    by (simp add: copiedScene_def copiedBox_def unitBox_def)
  have nm: "name copiedBox = ''Box 1'' @ '' (Copy)''" by (simp add: copiedBox_def)
  note t = duplicate_naming[where env = exampleEnv and s = copiedScene and i = "''ii''"
      and original = copiedBox and b = "''Box 1''" and n = 7 and nm = "''Box (Copy new)''"]
  from t[of "CHR 0x09"] sl nm have r: "rootName (name copiedBox) = ''Box 1''"
      "rootName (copyName ''Box 1'' 7) = ''Box 1''"
    by simp_all
  from t[of "CHR 0x09"] sl ws have r1: "rootName (''Box 1'' @ CHR 0x09 # ''(Copy)'') = ''Box 1''"
    by blast
  from t[of "CHR 0xA0" "CHR 0x09" "''007''"] sl ws dg
  have r2: "rootName (''Box 1'' @ CHR 0xA0 # ''(Copy'' @ CHR 0x09 # ''007'' @ '')'') = ''Box 1''"
    by blast
  from t[of "CHR 0x09"] no_suffix_Copy_new have r0: "rootName ''Box (Copy new)'' = ''Box (Copy new)''"
    by blast
  from t[of "CHR 0x09"] f obtain ob where ob: "objects (handleDuplicateObject exampleEnv ''ii'' copiedScene)
        = objects copiedScene @ [ob]"
    and free: "name ob \<notin> set (getAllNames (objects copiedScene))"
    and sch: "if rootName (name copiedBox) @ '' (Copy)'' \<notin> set (getAllNames (objects copiedScene))
             then name ob = rootName (name copiedBox) @ '' (Copy)''
             else \<exists>N\<ge>2. name ob = copyName (rootName (name copiedBox)) N \<and>
                    (\<forall>k. 2 \<le> k \<and> k < N \<longrightarrow>
                       copyName (rootName (name copiedBox)) k \<in> set (getAllNames (objects copiedScene)))"
    by blast
  from sch obtain N where N: "N \<ge> 2" "name ob = copyName ''Box 1'' N"
    "\<forall>k. 2 \<le> k \<and> k < N \<longrightarrow> copyName ''Box 1'' k \<in> set [''Box 1'', ''Box 1 (Copy)'']"
    by (auto simp: r nms)
  have c2: "copyName ''Box 1'' 2 = ''Box 1 (Copy 2)''"
    by (simp add: copyName_def decimal_small)
  have "N = 2"
  proof (rule ccontr)
    assume "N \<noteq> 2"
    with N(1) have "2 \<le> (2::nat) \<and> 2 < N" by simp
    with N(3) have "copyName ''Box 1'' 2 \<in> set [''Box 1'', ''Box 1 (Copy)'']" by blast
    then show False by (simp add: c2)
  qed
  with N(2) c2 ob have "lastName (handleDuplicateObject exampleEnv ''ii'' copiedScene) = ''Box 1 (Copy 2)''"
    by (simp add: lastName_def)
  with f r r1 r2 r0 nms show ?thesis by simp
qed

end
